theory Spec2Isabelle
  imports Complex_Main "HOL-Library.Sublist"
begin

section \<open>The CRM mutations of \<^verbatim>\<open>crm/schema.py\<close>\<close>

text \<open>
  The four GraphQL mutations of \<^verbatim>\<open>crm/schema.py\<close> (CreateCustomer, BulkCreateCustomers,
  CreateProduct, CreateOrder) are embedded as functions that take the entity store and the
  arguments of \<^verbatim>\<open>mutate\<close> and return either a raised exception or the new store together
  with the mutation's result object.
\<close>

subsection \<open>Python values\<close>

text \<open>
  A Python \<^verbatim>\<open>str\<close> is a \<^typ>\<open>string\<close>; every \<^typ>\<open>char\<close> stands for one code point
  below 256. A nullable GraphQL argument is an \<open>option\<close>, \<open>None\<close> being Python's
  \<^verbatim>\<open>None\<close>. Exceptions are values of \<open>py_error\<close>; a function that can raise returns
  \<open>py_error + 'a\<close>.
\<close>

datatype py_error =
    ValidationError | ObjectDoesNotExist | TypeError | AttributeError | ValueError
  | IntegrityError

text \<open>A keyword argument with a Python default: left out by the caller, or passed.\<close>

datatype 'a arg = Omitted | Passed 'a

fun arg_value :: "'a \<Rightarrow> 'a arg \<Rightarrow> 'a" where
  "arg_value d Omitted = d"
| "arg_value d (Passed v) = v"

text \<open>Truthiness of an optional string (\<^verbatim>\<open>if phone:\<close>) and \<^verbatim>\<open>phone or ""\<close>.\<close>

fun truthy :: "string option \<Rightarrow> bool" where
  "truthy None = False"
| "truthy (Some s) = (s \<noteq> [])"

fun or_empty :: "string option \<Rightarrow> string" where
  "or_empty None = []"
| "or_empty (Some s) = s"

subsection \<open>Regular expressions as \<^verbatim>\<open>re.match\<close> runs them\<close>

text \<open>
  The fragment of Python's \<^verbatim>\<open>re\<close> syntax that the phone pattern uses. A matcher state is
  the flag "at position 0" and the rest of the subject; \<open>rmatch\<close> returns the states
  reachable by matching the expression, in the order a backtracking matcher tries them.
  \<^verbatim>\<open>^\<close> holds at position 0 only, \<^verbatim>\<open>$\<close> holds at the end of the subject and just before
  a newline that ends it (no \<^verbatim>\<open>MULTILINE\<close> flag), \<^verbatim>\<open>\d\<close> is a decimal digit.
\<close>

datatype regex =
    Bol
  | Eol
  | Chr char
  | Digit
  | Eps
  | Seq regex regex
  | Alt regex regex
  | Opt regex

definition is_digit :: "char \<Rightarrow> bool" where
  "is_digit c = (c \<in> set ''0123456789'')"

definition newline :: char where
  "newline = CHR 0x0A"

fun rmatch :: "regex \<Rightarrow> bool \<times> string \<Rightarrow> (bool \<times> string) list" where
  "rmatch Bol (b, s) = (if b then [(b, s)] else [])"
| "rmatch Eol (b, s) = (if s = [] \<or> s = [newline] then [(b, s)] else [])"
| "rmatch (Chr c) (b, s) =
     (case s of [] \<Rightarrow> [] | x # xs \<Rightarrow> if x = c then [(False, xs)] else [])"
| "rmatch Digit (b, s) =
     (case s of [] \<Rightarrow> [] | x # xs \<Rightarrow> if is_digit x then [(False, xs)] else [])"
| "rmatch Eps (b, s) = [(b, s)]"
| "rmatch (Seq r1 r2) (b, s) = concat (map (rmatch r2) (rmatch r1 (b, s)))"
| "rmatch (Alt r1 r2) (b, s) = rmatch r1 (b, s) @ rmatch r2 (b, s)"
| "rmatch (Opt r) (b, s) = rmatch r (b, s) @ [(b, s)]"

text \<open>\<^verbatim>\<open>r{n}\<close>, \<^verbatim>\<open>r{0,n}\<close> (greedy) and \<^verbatim>\<open>r{lo,hi}\<close>.\<close>

fun exactly :: "nat \<Rightarrow> regex \<Rightarrow> regex" where
  "exactly 0 r = Eps"
| "exactly (Suc n) r = Seq r (exactly n r)"

fun at_most :: "nat \<Rightarrow> regex \<Rightarrow> regex" where
  "at_most 0 r = Eps"
| "at_most (Suc n) r = Opt (Seq r (at_most n r))"

definition repeat :: "nat \<Rightarrow> nat \<Rightarrow> regex \<Rightarrow> regex" where
  "repeat lo hi r = Seq (exactly lo r) (at_most (hi - lo) r)"

text \<open>\<^verbatim>\<open>re.match(pattern, s)\<close> is truthy when the pattern matches at position 0.\<close>

definition re_match :: "regex \<Rightarrow> string \<Rightarrow> bool" where
  "re_match r s = (rmatch r (True, s) \<noteq> [])"

text \<open>The two alternatives of the phone pattern:
  \<^verbatim>\<open>\+?\d{10,15}\<close> and \<^verbatim>\<open>\d{3}-\d{3}-\d{4}\<close>.\<close>

definition intl_body :: regex where
  "intl_body = Seq (Opt (Chr CHR ''+'')) (repeat 10 15 Digit)"

definition dashed_body :: regex where
  "dashed_body =
     Seq (exactly 3 Digit) (Seq (Chr CHR ''-'')
    (Seq (exactly 3 Digit) (Seq (Chr CHR ''-'') (exactly 4 Digit))))"

text \<open>The pattern of the source: \<^verbatim>\<open>^(\+?\d{10,15}|\d{3}-\d{3}-\d{4})$\<close>.\<close>

definition phone_re :: regex where
  "phone_re = Seq Bol (Seq (Alt intl_body dashed_body) Eol)"

text \<open>The two patterns the specification names:
  \<^verbatim>\<open>^\+?\d{10,15}$\<close> and \<^verbatim>\<open>^\d{3}-\d{3}-\d{4}$\<close>.\<close>

definition spec_intl_re :: regex where
  "spec_intl_re = Seq Bol (Seq intl_body Eol)"

definition spec_dashed_re :: regex where
  "spec_dashed_re = Seq Bol (Seq dashed_body Eol)"

subsection \<open>Entities and the entity store\<close>

text \<open>
  The entity classes are declared in \<^verbatim>\<open>crm/models.py\<close>; \<^verbatim>\<open>schema.py\<close> only uses them.
  A row's identity is a key that the store assigns (\<open>nat\<close>), \<open>None\<close> on an object that
  was not saved. Prices and totals are exact numbers, a timestamp is a number.
\<close>

type_synonym datetime = int

text \<open>Modelled from the spec: the class \<^verbatim>\<open>Customer\<close> of \<^verbatim>\<open>crm/models.py\<close>, with the fields
  of the specification's data model, which are those \<^verbatim>\<open>schema.py\<close> passes to the
  constructor.\<close>

record customer =
  customer_id :: "nat option"
  customer_name :: string
  customer_email :: string
  customer_phone :: string

text \<open>Modelled from the spec: the class \<^verbatim>\<open>Product\<close> of \<^verbatim>\<open>crm/models.py\<close>.\<close>

record product =
  product_id :: "nat option"
  product_name :: string
  product_price :: real
  product_stock :: int

text \<open>Modelled from the spec: the class \<^verbatim>\<open>Order\<close> of \<^verbatim>\<open>crm/models.py\<close>; the products
  attached to an order (a many-to-many relation) are kept with the order.\<close>

record order =
  order_id :: "nat option"
  order_customer :: customer
  order_date :: datetime
  total_amount :: real
  order_products :: "product list"

text \<open>Modelled from the spec: the relational store behind \<^verbatim>\<open>objects\<close>. Each table is the
  list of its rows in insertion order, with the next key of its sequence. The email of a
  customer is unique in the store: a write that would store an email twice is refused
  with \<^verbatim>\<open>IntegrityError\<close>. Other storage faults are not part of the model.\<close>

record store =
  customers :: "customer list"
  products :: "product list"
  orders :: "order list"
  customer_seq :: nat
  product_seq :: nat
  order_seq :: nat

definition empty_store :: store where
  "empty_store =
     \<lparr>customers = [], products = [], orders = [],
      customer_seq = 1, product_seq = 1, order_seq = 1\<rparr>"

text \<open>\<^verbatim>\<open>Customer.objects.filter(email=email).exists()\<close>\<close>

definition email_exists :: "store \<Rightarrow> string \<Rightarrow> bool" where
  "email_exists st email = list_ex (\<lambda>c. customer_email c = email) (customers st)"

text \<open>The insertion of a customer row: the store assigns the key.\<close>

definition customer_insert :: "store \<Rightarrow> customer \<Rightarrow> store \<times> customer" where
  "customer_insert st c =
     (let c' = c\<lparr>customer_id := Some (customer_seq st)\<rparr>
      in (st\<lparr>customers := customers st @ [c'], customer_seq := Suc (customer_seq st)\<rparr>, c'))"

text \<open>\<^verbatim>\<open>customer.save()\<close> on an unsaved object: the row is inserted unless its email is
  already stored.\<close>

definition customer_save :: "store \<Rightarrow> customer \<Rightarrow> py_error + (store \<times> customer)" where
  "customer_save st c =
     (if email_exists st (customer_email c) then Inl IntegrityError
      else Inr (customer_insert st c))"

text \<open>\<^verbatim>\<open>with transaction.atomic(): Customer.objects.bulk_create(created)\<close>: the rows are
  inserted in order as one write; when one of them is refused, none is stored.\<close>

fun bulk_create :: "store \<Rightarrow> customer list \<Rightarrow> py_error + (store \<times> customer list)" where
  "bulk_create st [] = Inr (st, [])"
| "bulk_create st (c # cs) =
     (case customer_save st c of
        Inl e \<Rightarrow> Inl e
      | Inr (st1, c') \<Rightarrow>
          (case bulk_create st1 cs of
             Inl e \<Rightarrow> Inl e
           | Inr (st2, cs') \<Rightarrow> Inr (st2, c' # cs')))"

text \<open>\<^verbatim>\<open>product.save()\<close>\<close>

definition product_save :: "store \<Rightarrow> product \<Rightarrow> store \<times> product" where
  "product_save st p =
     (let p' = p\<lparr>product_id := Some (product_seq st)\<rparr>
      in (st\<lparr>products := products st @ [p'], product_seq := Suc (product_seq st)\<rparr>, p'))"

text \<open>
  A \<^verbatim>\<open>graphene.ID\<close> reaches \<^verbatim>\<open>mutate\<close> as a string. In a lookup the store converts it to
  an integer key and raises \<^verbatim>\<open>ValueError\<close> when the string is not a number. The conversion
  is library code: the model takes it as the parameter \<open>key_of\<close>, \<open>None\<close> for a string
  that is refused. A row has the key \<open>i\<close> when the store assigned it that number.
\<close>

definition has_key :: "nat option \<Rightarrow> int \<Rightarrow> bool" where
  "has_key k i = (case k of None \<Rightarrow> False | Some n \<Rightarrow> int n = i)"

text \<open>\<^verbatim>\<open>Customer.objects.get(pk=customer_id)\<close>: the row with that key, or
  \<^verbatim>\<open>ObjectDoesNotExist\<close>; \<^verbatim>\<open>ValueError\<close> for an id that is no number.\<close>

definition customer_get :: "(string \<Rightarrow> int option) \<Rightarrow> store \<Rightarrow> string \<Rightarrow> py_error + customer" where
  "customer_get key_of st pk =
     (case key_of pk of
        None \<Rightarrow> Inl ValueError
      | Some i \<Rightarrow>
          (case find (\<lambda>c. has_key (customer_id c) i) (customers st) of
             None \<Rightarrow> Inl ObjectDoesNotExist
           | Some c \<Rightarrow> Inr c))"

text \<open>The keys of an \<^verbatim>\<open>id__in\<close> lookup: every id of the list is converted, a null id is
  left out.\<close>

fun prep_ids :: "(string \<Rightarrow> int option) \<Rightarrow> string option list \<Rightarrow> py_error + int list" where
  "prep_ids key_of [] = Inr []"
| "prep_ids key_of (None # ids) = prep_ids key_of ids"
| "prep_ids key_of (Some s # ids) =
     (case key_of s of
        None \<Rightarrow> Inl ValueError
      | Some i \<Rightarrow>
          (case prep_ids key_of ids of
             Inl e \<Rightarrow> Inl e
           | Inr ks \<Rightarrow> Inr (i # ks)))"

text \<open>\<^verbatim>\<open>Product.objects.filter(id__in=product_ids)\<close>: the rows whose key occurs in the
  list; each row at most once, however often its key is listed.\<close>

definition product_filter_id_in ::
  "(string \<Rightarrow> int option) \<Rightarrow> store \<Rightarrow> string option list \<Rightarrow> py_error + product list" where
  "product_filter_id_in key_of st ids =
     (case prep_ids key_of ids of
        Inl e \<Rightarrow> Inl e
      | Inr ks \<Rightarrow> Inr (filter (\<lambda>p. list_ex (has_key (product_id p)) ks) (products st)))"

text \<open>\<^verbatim>\<open>Order.objects.create(customer=..., order_date=..., total_amount=...)\<close>\<close>

definition order_create :: "store \<Rightarrow> customer \<Rightarrow> datetime \<Rightarrow> real \<Rightarrow> store \<times> order" where
  "order_create st c d amount =
     (let new = \<lparr>order_id = Some (order_seq st), order_customer = c, order_date = d,
                 total_amount = amount, order_products = []\<rparr>
      in (st\<lparr>orders := orders st @ [new], order_seq := Suc (order_seq st)\<rparr>, new))"

text \<open>\<^verbatim>\<open>order.products.set(products)\<close>: the order's associated products become the given
  ones.\<close>

definition products_set :: "store \<Rightarrow> order \<Rightarrow> product list \<Rightarrow> store \<times> order" where
  "products_set st od ps =
     (st\<lparr>orders :=
          map (\<lambda>row. if order_id row = order_id od then row\<lparr>order_products := ps\<rparr> else row)
            (orders st)\<rparr>,
      od\<lparr>order_products := ps\<rparr>)"

text \<open>Keys are unique in every table and below the table's sequence.\<close>

definition keys_ok :: "nat option list \<Rightarrow> nat \<Rightarrow> bool" where
  "keys_ok ks n = (distinct ks \<and> list_all (\<lambda>k. case k of None \<Rightarrow> False | Some i \<Rightarrow> i < n) ks)"

definition store_ok :: "store \<Rightarrow> bool" where
  "store_ok st =
     (keys_ok (map customer_id (customers st)) (customer_seq st) \<and>
      keys_ok (map product_id (products st)) (product_seq st) \<and>
      keys_ok (map order_id (orders st)) (order_seq st))"

subsection \<open>Result objects\<close>

text \<open>
  \<^verbatim>\<open>CreateCustomer(customer=..., success=..., message=...)\<close> and its two siblings: the
  entity field (unset on failure), the flag and the message.
\<close>

record 'a mutation_result =
  entity :: "'a option"
  success :: bool
  message :: string

definition failed :: "string \<Rightarrow> 'a mutation_result" where
  "failed msg = \<lparr>entity = None, success = False, message = msg\<rparr>"

definition succeeded :: "'a \<Rightarrow> string \<Rightarrow> 'a mutation_result" where
  "succeeded x msg = \<lparr>entity = Some x, success = True, message = msg\<rparr>"

record bulk_result =
  created_customers :: "customer list"
  errors :: "string list"

subsection \<open>Validators\<close>

text \<open>
  \<^verbatim>\<open>django.core.validators.validate_email\<close> is a library function; the model takes the
  set of strings it accepts as the parameter \<open>ve\<close>. It raises \<^verbatim>\<open>ValidationError\<close> on
  every other string.
\<close>

definition validate_email :: "(string \<Rightarrow> bool) \<Rightarrow> string \<Rightarrow> py_error + unit" where
  "validate_email ve email = (if ve email then Inr () else Inl ValidationError)"

text \<open>\<^verbatim>\<open>if phone: if not re.match(..., phone): <reject>\<close>: the condition under which the
  phone is rejected.\<close>

definition phone_rejected :: "string option \<Rightarrow> bool" where
  "phone_rejected phone = (truthy phone \<and> \<not> re_match phone_re (or_empty phone))"

subsection \<open>CreateCustomer\<close>

text \<open>The body of the \<^verbatim>\<open>try\<close> block (lines 24 to 36).\<close>

definition CreateCustomer_try ::
  "(string \<Rightarrow> bool) \<Rightarrow> store \<Rightarrow> string \<Rightarrow> string \<Rightarrow> string option
     \<Rightarrow> py_error + (store \<times> customer mutation_result)" where
  "CreateCustomer_try ve st name email phone =
     (case validate_email ve email of
        Inl e \<Rightarrow> Inl e
      | Inr _ \<Rightarrow>
          if email_exists st email then Inr (st, failed ''Email already exists'')
          else if phone_rejected phone then Inr (st, failed ''Invalid phone format'')
          else
            (case customer_save st
                    \<lparr>customer_id = None, customer_name = name, customer_email = email,
                     customer_phone = or_empty phone\<rparr> of
               Inl e \<Rightarrow> Inl e
             | Inr (st', c) \<Rightarrow> Inr (st', succeeded c ''Customer created successfully'')))"

text \<open>\<^verbatim>\<open>mutate\<close>: the \<^verbatim>\<open>try\<close> block with its handler for \<^verbatim>\<open>ValidationError\<close>.\<close>

definition CreateCustomer_mutate ::
  "(string \<Rightarrow> bool) \<Rightarrow> store \<Rightarrow> string \<Rightarrow> string \<Rightarrow> string option
     \<Rightarrow> py_error + (store \<times> customer mutation_result)" where
  "CreateCustomer_mutate ve st name email phone =
     (case CreateCustomer_try ve st name email phone of
        Inl ValidationError \<Rightarrow> Inr (st, failed ''Invalid email format'')
      | Inl e \<Rightarrow> Inl e
      | Inr r \<Rightarrow> Inr r)"

subsection \<open>BulkCreateCustomers\<close>

text \<open>\<^verbatim>\<open>CustomerInput\<close>: name and email are required, phone is nullable.\<close>

record customer_input =
  input_name :: string
  input_email :: string
  input_phone :: "string option"

text \<open>
  One pass of the loop body for a record: \<open>Inl\<close> the string appended to \<^verbatim>\<open>errors\<close>,
  \<open>Inr\<close> the unsaved object appended to \<^verbatim>\<open>created\<close>. The store is only read.
\<close>

definition bulk_record :: "(string \<Rightarrow> bool) \<Rightarrow> store \<Rightarrow> customer_input \<Rightarrow> string + customer" where
  "bulk_record ve st c =
     (case validate_email ve (input_email c) of
        Inl e \<Rightarrow> Inl (input_email c @ '': Invalid email format'')
      | Inr _ \<Rightarrow>
          if email_exists st (input_email c)
          then Inl (input_email c @ '': Email already exists'')
          else if phone_rejected (input_phone c)
          then Inl (input_email c @ '': Invalid phone format'')
          else Inr \<lparr>customer_id = None, customer_name = input_name c,
                    customer_email = input_email c,
                    customer_phone = or_empty (input_phone c)\<rparr>)"

text \<open>
  The \<^verbatim>\<open>for\<close> loop with its two accumulators. A null element of the list has no
  attribute \<^verbatim>\<open>email\<close>: \<^verbatim>\<open>AttributeError\<close>, which the handler does not catch.
\<close>

fun bulk_loop ::
  "(string \<Rightarrow> bool) \<Rightarrow> store \<Rightarrow> customer_input option list \<Rightarrow> customer list \<Rightarrow> string list
     \<Rightarrow> py_error + (customer list \<times> string list)" where
  "bulk_loop ve st [] created errs = Inr (created, errs)"
| "bulk_loop ve st (None # cs) created errs = Inl AttributeError"
| "bulk_loop ve st (Some c # cs) created errs =
     (case bulk_record ve st c of
        Inl msg \<Rightarrow> bulk_loop ve st cs created (errs @ [msg])
      | Inr obj \<Rightarrow> bulk_loop ve st cs (created @ [obj]) errs)"

text \<open>\<^verbatim>\<open>mutate\<close>: a null list cannot be enumerated (\<^verbatim>\<open>TypeError\<close>); after the loop the
  accepted objects are written as one batch, and an error of that write is not caught.\<close>

definition BulkCreateCustomers_mutate ::
  "(string \<Rightarrow> bool) \<Rightarrow> store \<Rightarrow> customer_input option list option
     \<Rightarrow> py_error + (store \<times> bulk_result)" where
  "BulkCreateCustomers_mutate ve st customers_arg =
     (case customers_arg of
        None \<Rightarrow> Inl TypeError
      | Some cs \<Rightarrow>
          (case bulk_loop ve st cs [] [] of
             Inl e \<Rightarrow> Inl e
           | Inr (created, errs) \<Rightarrow>
               (case bulk_create st created of
                  Inl e \<Rightarrow> Inl e
                | Inr (st', created') \<Rightarrow>
                    Inr (st', \<lparr>created_customers = created', errors = errs\<rparr>))))"

subsection \<open>CreateProduct\<close>

text \<open>
  \<^verbatim>\<open>stock = graphene.Int()\<close> is nullable and \<^verbatim>\<open>mutate\<close> gives it the default 0: the
  argument is left out (0 is used), or passed as an integer or as null. Comparing
  \<^verbatim>\<open>None < 0\<close> raises \<^verbatim>\<open>TypeError\<close>.
\<close>

definition CreateProduct_mutate ::
  "store \<Rightarrow> string \<Rightarrow> real \<Rightarrow> int option arg \<Rightarrow> py_error + (store \<times> product mutation_result)" where
  "CreateProduct_mutate st name price stock_arg =
     (let stock = arg_value (Some 0) stock_arg in
      if price \<le> 0 then Inr (st, failed ''Price must be positive'')
      else
        (case stock of
           None \<Rightarrow> Inl TypeError
         | Some n \<Rightarrow>
             if n < 0 then Inr (st, failed ''Stock cannot be negative'')
             else
               (case product_save st
                       \<lparr>product_id = None, product_name = name, product_price = price,
                        product_stock = n\<rparr> of
                  (st', p) \<Rightarrow> Inr (st', succeeded p ''Product created successfully''))))"

subsection \<open>CreateOrder\<close>

text \<open>\<^verbatim>\<open>sum([...])\<close> adds from the left, starting at 0.\<close>

definition py_sum :: "real list \<Rightarrow> real" where
  "py_sum xs = foldl (+) 0 xs"

text \<open>\<^verbatim>\<open>order_date or datetime.now()\<close>: a datetime object is always truthy.\<close>

fun date_or :: "datetime option \<Rightarrow> datetime \<Rightarrow> datetime" where
  "date_or None now = now"
| "date_or (Some d) now = d"

text \<open>
  \<^verbatim>\<open>mutate\<close>; \<open>now\<close> is the reading of the clock. \<^verbatim>\<open>customer_id\<close> is a
  \<^verbatim>\<open>graphene.ID\<close>, \<^verbatim>\<open>product_ids\<close> a list of them whose elements may be null. Only
  \<^verbatim>\<open>ObjectDoesNotExist\<close> is caught.
\<close>

definition CreateOrder_mutate ::
  "(string \<Rightarrow> int option) \<Rightarrow> datetime \<Rightarrow> store \<Rightarrow> string \<Rightarrow> string option list
     \<Rightarrow> datetime option \<Rightarrow> py_error + (store \<times> order mutation_result)" where
  "CreateOrder_mutate key_of now st cid product_ids order_date_arg =
     (case customer_get key_of st cid of
        Inl ObjectDoesNotExist \<Rightarrow> Inr (st, failed ''Customer not found'')
      | Inl e \<Rightarrow> Inl e
      | Inr cust \<Rightarrow>
          if product_ids = [] then Inr (st, failed ''No products selected'')
          else
            (case product_filter_id_in key_of st product_ids of
               Inl e \<Rightarrow> Inl e
             | Inr ps \<Rightarrow>
                 if length ps \<noteq> length product_ids
                 then Inr (st, failed ''Invalid product ID(s)'')
                 else
                   (let amount = py_sum (map product_price ps) in
                    case order_create st cust (date_or order_date_arg now) amount of
                      (st1, od) \<Rightarrow>
                        (case products_set st1 od ps of
                           (st2, od') \<Rightarrow>
                             Inr (st2, succeeded od' ''Order created successfully'')))))"

subsection \<open>The specification's wording of the checks\<close>

text \<open>
  The phone check as the specification words it: an absent or empty phone is always
  valid, any other phone must match one of the two patterns.
\<close>

definition phone_acceptable :: "string option \<Rightarrow> bool" where
  "phone_acceptable phone =
     (case phone of
        None \<Rightarrow> True
      | Some p \<Rightarrow> p = [] \<or> re_match spec_intl_re p \<or> re_match spec_dashed_re p)"

text \<open>
  The phone shapes in the specification's words: a digit string of 10 to 15 digits with an
  optional leading \<^verbatim>\<open>+\<close>, or the dashed shape \<^verbatim>\<open>NNN-NNN-NNNN\<close>.
\<close>

definition digits :: "string \<Rightarrow> bool" where
  "digits s = list_all is_digit s"

definition intl_shape :: "string \<Rightarrow> bool" where
  "intl_shape t =
     (let ds = (case t of [] \<Rightarrow> [] | c # r \<Rightarrow> if c = CHR ''+'' then r else t)
      in digits ds \<and> 10 \<le> length ds \<and> length ds \<le> 15)"

definition dashed_shape :: "string \<Rightarrow> bool" where
  "dashed_shape t =
     (length t = 12 \<and> digits (take 3 t) \<and> take 1 (drop 3 t) = ''-'' \<and>
      digits (take 3 (drop 4 t)) \<and> take 1 (drop 7 t) = ''-'' \<and> digits (drop 8 t))"

text \<open>
  A record fails one of the three per-record checks: email format, email uniqueness
  against the customers already in the store, phone format.
\<close>

definition record_fails :: "(string \<Rightarrow> bool) \<Rightarrow> store \<Rightarrow> customer_input \<Rightarrow> bool" where
  "record_fails ve st c =
     (\<not> ve (input_email c) \<or> email_exists st (input_email c) \<or>
      \<not> phone_acceptable (input_phone c))"

text \<open>The name, email and phone of a stored customer and those an input record asks for.\<close>

definition customer_fields :: "customer \<Rightarrow> string \<times> string \<times> string" where
  "customer_fields c = (customer_name c, customer_email c, customer_phone c)"

definition input_fields :: "customer_input \<Rightarrow> string \<times> string \<times> string" where
  "input_fields c = (input_name c, input_email c, or_empty (input_phone c))"

text \<open>A customer id resolves to an existing customer: it is the number of a customer's
  key.\<close>

definition customer_known :: "(string \<Rightarrow> int option) \<Rightarrow> store \<Rightarrow> string \<Rightarrow> bool" where
  "customer_known key_of st pk =
     (case key_of pk of
        None \<Rightarrow> False
      | Some i \<Rightarrow> list_ex (\<lambda>c. has_key (customer_id c) i) (customers st))"

text \<open>The products a list of ids resolves to: the rows whose key is the number of one of
  the ids, in the order of the table, and the set of these rows.\<close>

definition wanted :: "(string \<Rightarrow> int option) \<Rightarrow> string option list \<Rightarrow> int \<Rightarrow> bool" where
  "wanted key_of ids i =
     list_ex (\<lambda>x. case x of None \<Rightarrow> False | Some s \<Rightarrow> key_of s = Some i) ids"

definition resolved_rows :: "(string \<Rightarrow> int option) \<Rightarrow> store \<Rightarrow> string option list \<Rightarrow> product list" where
  "resolved_rows key_of st ids =
     filter (\<lambda>p. case product_id p of None \<Rightarrow> False | Some k \<Rightarrow> wanted key_of ids (int k))
       (products st)"

definition resolved :: "(string \<Rightarrow> int option) \<Rightarrow> store \<Rightarrow> string option list \<Rightarrow> product set" where
  "resolved key_of st ids = set (resolved_rows key_of st ids)"

text \<open>Every id of the list that is not null is a number; the numbers of the list.\<close>

definition ids_ok :: "(string \<Rightarrow> int option) \<Rightarrow> string option list \<Rightarrow> bool" where
  "ids_ok key_of ids =
     list_all (\<lambda>x. case x of None \<Rightarrow> True | Some s \<Rightarrow> key_of s \<noteq> None) ids"

definition parsed :: "(string \<Rightarrow> int option) \<Rightarrow> string option list \<Rightarrow> int list" where
  "parsed key_of ids =
     concat (map (\<lambda>x. case x of
                          None \<Rightarrow> []
                        | Some s \<Rightarrow> (case key_of s of None \<Rightarrow> [] | Some i \<Rightarrow> [i])) ids)"

text \<open>The reason of a failing record, the first check that fails, and the error string
  \<^verbatim>\<open>"<email>: <reason>"\<close>.\<close>

definition failure_reason :: "(string \<Rightarrow> bool) \<Rightarrow> store \<Rightarrow> customer_input \<Rightarrow> string" where
  "failure_reason ve st c =
     (if \<not> ve (input_email c) then ''Invalid email format''
      else if email_exists st (input_email c) then ''Email already exists''
      else ''Invalid phone format'')"

definition error_string :: "(string \<Rightarrow> bool) \<Rightarrow> store \<Rightarrow> customer_input \<Rightarrow> string" where
  "error_string ve st c = input_email c @ '': '' @ failure_reason ve st c"

text \<open>The object built for an accepted record, and the keys a batch write assigns to a list
  of objects, starting at \<open>n\<close>.\<close>

definition unsaved :: "customer_input \<Rightarrow> customer" where
  "unsaved c =
     \<lparr>customer_id = None, customer_name = input_name c, customer_email = input_email c,
      customer_phone = or_empty (input_phone c)\<rparr>"

fun assign_keys :: "nat \<Rightarrow> customer list \<Rightarrow> customer list" where
  "assign_keys n [] = []"
| "assign_keys n (c # cs) = c\<lparr>customer_id := Some n\<rparr> # assign_keys (Suc n) cs"

subsection \<open>Sample data\<close>

text \<open>
  A stand-in for the email validator in the concrete runs below: one \<^verbatim>\<open>@\<close> with text on
  both sides.
\<close>

definition sample_email :: "string \<Rightarrow> bool" where
  "sample_email s =
     (let u = takeWhile (\<lambda>c. c \<noteq> CHR ''@'') s; d = dropWhile (\<lambda>c. c \<noteq> CHR ''@'') s
      in u \<noteq> [] \<and> 1 < length d \<and> CHR ''@'' \<notin> set (tl d))"

text \<open>
  A stand-in for the conversion of an id to a key in the concrete runs below: a
  non-empty string of decimal digits is the number it writes, any other string is
  refused.
\<close>

definition digit_value :: "char \<Rightarrow> nat" where
  "digit_value c = of_char c - 48"

definition decimal_key :: "string \<Rightarrow> int option" where
  "decimal_key s =
     (if s \<noteq> [] \<and> list_all is_digit s
      then Some (int (foldl (\<lambda>n c. 10 * n + digit_value c) 0 s))
      else None)"

text \<open>The store after Ann was created in the empty store.\<close>

definition ann :: customer where
  "ann = \<lparr>customer_id = Some 1, customer_name = ''Ann'',
          customer_email = ''ann@example.com'', customer_phone = []\<rparr>"

definition ann_store :: store where
  "ann_store =
     \<lparr>customers = [ann], products = [], orders = [],
      customer_seq = 2, product_seq = 1, order_seq = 1\<rparr>"

text \<open>The store after two products were created as well.\<close>

definition widget :: product where
  "widget = \<lparr>product_id = Some 1, product_name = ''Widget'', product_price = 10,
             product_stock = 0\<rparr>"

definition gadget :: product where
  "gadget = \<lparr>product_id = Some 2, product_name = ''Gadget'', product_price = 15.5,
             product_stock = 3\<rparr>"

definition shop_store :: store where
  "shop_store =
     \<lparr>customers = [ann], products = [widget, gadget], orders = [],
      customer_seq = 2, product_seq = 3, order_seq = 1\<rparr>"

text \<open>The order of Ann for both products, placed at time 100.\<close>

definition first_order :: order where
  "first_order =
     \<lparr>order_id = Some 1, order_customer = ann, order_date = 100, total_amount = 25.5,
      order_products = [widget, gadget]\<rparr>"

text \<open>A batch of five records for the store that holds Ann, the store after the batch and
  the errors of the batch.\<close>

definition bob_in :: customer_input where
  "bob_in = \<lparr>input_name = ''Bob'', input_email = ''bob@example.com'',
             input_phone = Some ''+1234567890''\<rparr>"

definition ann_in :: customer_input where
  "ann_in = \<lparr>input_name = ''Ann again'', input_email = ''ann@example.com'',
             input_phone = None\<rparr>"

definition carl_in :: customer_input where
  "carl_in = \<lparr>input_name = ''Carl'', input_email = ''carl@example.com'',
              input_phone = Some ''12345''\<rparr>"

definition dora_in :: customer_input where
  "dora_in = \<lparr>input_name = ''Dora'', input_email = ''not-an-email'', input_phone = None\<rparr>"

definition eve_in :: customer_input where
  "eve_in = \<lparr>input_name = ''Eve'', input_email = ''eve@example.com'', input_phone = None\<rparr>"

definition batch :: "customer_input list" where
  "batch = [bob_in, ann_in, carl_in, dora_in, eve_in]"

definition bob :: customer where
  "bob = \<lparr>customer_id = Some 2, customer_name = ''Bob'', customer_email = ''bob@example.com'',
          customer_phone = ''+1234567890''\<rparr>"

definition eve :: customer where
  "eve = \<lparr>customer_id = Some 3, customer_name = ''Eve'', customer_email = ''eve@example.com'',
          customer_phone = []\<rparr>"

definition batch_store :: store where
  "batch_store =
     \<lparr>customers = [ann, bob, eve], products = [], orders = [],
      customer_seq = 4, product_seq = 1, order_seq = 1\<rparr>"

definition batch_errors :: "string list" where
  "batch_errors =
     [''ann@example.com: Email already exists'',
      ''carl@example.com: Invalid phone format'',
      ''not-an-email: Invalid email format'']"

text \<open>The customer stored for an empty name in the empty store.\<close>

definition nameless :: customer where
  "nameless = \<lparr>customer_id = Some 1, customer_name = [], customer_email = ''ann@example.com'',
               customer_phone = []\<rparr>"

text \<open>A batch for the empty store whose first record has an empty name, and the store
  after that batch.\<close>

definition nameless_in :: customer_input where
  "nameless_in = \<lparr>input_name = [], input_email = ''ann@example.com'', input_phone = None\<rparr>"

definition nameless_store :: store where
  "nameless_store =
     \<lparr>customers = [nameless], products = [], orders = [],
      customer_seq = 2, product_seq = 1, order_seq = 1\<rparr>"

section \<open>Properties\<close>

subsection \<open>The phone pattern\<close>

lemma anchored_alt:
  "re_match (Seq Bol (Seq (Alt a b) Eol)) s =
     (re_match (Seq Bol (Seq a Eol)) s \<or> re_match (Seq Bol (Seq b Eol)) s)"
  by (simp add: re_match_def)

lemma phone_re_spec:
  "re_match phone_re s = (re_match spec_intl_re s \<or> re_match spec_dashed_re s)"
  unfolding phone_re_def spec_intl_re_def spec_dashed_re_def by (rule anchored_alt)

lemma phone_rejected_iff: "phone_rejected phone = (\<not> phone_acceptable phone)"
  by (cases phone) (auto simp: phone_rejected_def phone_acceptable_def phone_re_spec)

subsection \<open>The phone pattern in plain terms\<close>

text \<open>
  What the matcher computes for the pattern: a phone matches when it is one of the two
  shapes, possibly followed by one newline (\<^verbatim>\<open>$\<close> also holds before a final newline).
\<close>

lemma rmatch_exactly_digits:
  "rmatch (exactly n Digit) (b, s) =
     (if n \<le> length s \<and> digits (take n s) then [(b \<and> n = 0, drop n s)] else [])"
proof (induction n arbitrary: b s)
  case 0
  then show ?case by (simp add: digits_def)
next
  case (Suc n)
  show ?case
    by (cases s) (simp_all add: Suc.IH digits_def)
qed

lemma set_rmatch_at_most_digits:
  "set (rmatch (at_most n Digit) (b, s)) =
     {(b \<and> k = 0, drop k s) | k. k \<le> n \<and> k \<le> length s \<and> digits (take k s)}"
proof (induction n arbitrary: b s)
  case 0
  then show ?case by (auto simp: digits_def)
next
  case (Suc n)
  show ?case
  proof (cases s)
    case Nil
    then show ?thesis by (auto simp: digits_def)
  next
    case (Cons x xs)
    show ?thesis
    proof (cases "is_digit x")
      case False
      have z: "k = 0" if "digits (take k (x # xs))" for k
        using that False by (cases k) (simp_all add: digits_def)
      have "{(b \<and> k = 0, drop k (x # xs)) | k. k \<le> Suc n \<and> k \<le> length (x # xs) \<and>
               digits (take k (x # xs))} = {(b, x # xs)}"
        (is "?L = ?R")
      proof
        show "?L \<subseteq> ?R"
        proof
          fix p assume "p \<in> ?L"
          then obtain k where k: "p = (b \<and> k = 0, drop k (x # xs))"
            "digits (take k (x # xs))"
            by blast
          with z [of k] show "p \<in> ?R" by simp
        qed
        have "(b, x # xs) = (b \<and> (0::nat) = 0, drop 0 (x # xs)) \<and> (0::nat) \<le> Suc n \<and>
            0 \<le> length (x # xs) \<and> digits (take 0 (x # xs))"
          by (simp add: digits_def)
        then have "(b, x # xs) \<in> ?L" by blast
        then show "?R \<subseteq> ?L" by simp
      qed
      with Cons False show ?thesis
        by simp
    next
      case True
      have "{(b \<and> k = 0, drop k (x # xs)) | k. k \<le> Suc n \<and> k \<le> length (x # xs) \<and>
               digits (take k (x # xs))} =
            insert (b, x # xs)
              {(False, drop k xs) | k. k \<le> n \<and> k \<le> length xs \<and> digits (take k xs)}"
        (is "?L = ?R")
      proof
        show "?L \<subseteq> ?R"
        proof
          fix p assume "p \<in> ?L"
          then obtain k where k: "p = (b \<and> k = 0, drop k (x # xs))" "k \<le> Suc n"
            "k \<le> length (x # xs)" "digits (take k (x # xs))"
            by blast
          show "p \<in> ?R"
          proof (cases k)
            case 0
            with k show ?thesis by simp
          next
            case (Suc j)
            with k have "p = (False, drop j xs)" "j \<le> n" "j \<le> length xs" "digits (take j xs)"
              by (simp_all add: digits_def)
            then show ?thesis by blast
          qed
        qed
        show "?R \<subseteq> ?L"
        proof
          fix p assume "p \<in> ?R"
          then consider "p = (b, x # xs)"
            | j where "p = (False, drop j xs)" "j \<le> n" "j \<le> length xs" "digits (take j xs)"
            by blast
          then show "p \<in> ?L"
          proof cases
            case 1
            have "p = (b \<and> (0::nat) = 0, drop 0 (x # xs)) \<and> (0::nat) \<le> Suc n \<and>
                0 \<le> length (x # xs) \<and> digits (take 0 (x # xs))"
              using 1 by (simp add: digits_def)
            then show ?thesis by blast
          next
            case 2
            with True have "p = (b \<and> Suc j = 0, drop (Suc j) (x # xs)) \<and> Suc j \<le> Suc n \<and>
                Suc j \<le> length (x # xs) \<and> digits (take (Suc j) (x # xs))"
              by (simp add: digits_def)
            then show ?thesis by blast
          qed
        qed
      qed
      with Cons True show ?thesis
        by (simp add: Suc.IH)
    qed
  qed
qed

lemma digits_append: "digits (xs @ ys) = (digits xs \<and> digits ys)"
  by (simp add: digits_def)

lemma digits_take_add:
  "digits (take (n + k) s) = (digits (take n s) \<and> digits (take k (drop n s)))"
  by (simp add: take_add digits_append)

lemma set_rmatch_repeat_digits:
  assumes "lo \<le> hi"
  shows "set (rmatch (repeat lo hi Digit) (b, s)) =
     {(b \<and> m = 0, drop m s) | m. lo \<le> m \<and> m \<le> hi \<and> m \<le> length s \<and> digits (take m s)}"
    (is "?L = ?R")
proof (cases "lo \<le> length s \<and> digits (take lo s)")
  case False
  have "?R = {}"
  proof -
    have "\<not> digits (take m s)" if "lo \<le> m" "m \<le> length s" for m
    proof -
      from that obtain k where "m = lo + k"
        using le_Suc_ex by blast
      with that False show ?thesis
        by (auto simp: digits_take_add)
    qed
    then show ?thesis by blast
  qed
  moreover from False have "rmatch (exactly lo Digit) (b, s) = []"
    by (simp add: rmatch_exactly_digits)
  then have "?L = {}"
    by (simp add: repeat_def)
  ultimately show ?thesis by simp
next
  case True
  then have "rmatch (exactly lo Digit) (b, s) = [(b \<and> lo = 0, drop lo s)]"
    by (simp add: rmatch_exactly_digits)
  then have l: "?L = {((b \<and> lo = 0) \<and> k = 0, drop k (drop lo s)) | k.
      k \<le> hi - lo \<and> k \<le> length (drop lo s) \<and> digits (take k (drop lo s))}"
    by (simp add: repeat_def set_rmatch_at_most_digits)
  show ?thesis
  proof
    show "?L \<subseteq> ?R"
    proof
      fix p assume "p \<in> ?L"
      with l obtain k where k: "p = ((b \<and> lo = 0) \<and> k = 0, drop k (drop lo s))"
        "k \<le> hi - lo" "k \<le> length (drop lo s)" "digits (take k (drop lo s))"
        by blast
      have d: "drop k (drop lo s) = drop (lo + k) s"
        by (simp add: add.commute)
      from k True assms
      have "p = (b \<and> lo + k = 0, drop (lo + k) s) \<and> lo \<le> lo + k \<and> lo + k \<le> hi \<and>
          lo + k \<le> length s \<and> digits (take (lo + k) s)"
        by (auto simp: digits_take_add d simp del: drop_drop)
      then show "p \<in> ?R" by blast
    qed
    show "?R \<subseteq> ?L"
    proof
      fix p assume "p \<in> ?R"
      then obtain m where m: "p = (b \<and> m = 0, drop m s)" "lo \<le> m" "m \<le> hi"
        "m \<le> length s" "digits (take m s)"
        by blast
      then obtain k where mk: "m = lo + k"
        using le_Suc_ex by blast
      have d: "drop k (drop lo s) = drop (lo + k) s"
        by (simp add: add.commute)
      from m mk have "p = ((b \<and> lo = 0) \<and> k = 0, drop k (drop lo s)) \<and> k \<le> hi - lo \<and>
          k \<le> length (drop lo s) \<and> digits (take k (drop lo s))"
        by (auto simp: digits_take_add d simp del: drop_drop)
      then have "p \<in> {((b \<and> lo = 0) \<and> k = 0, drop k (drop lo s)) | k.
          k \<le> hi - lo \<and> k \<le> length (drop lo s) \<and> digits (take k (drop lo s))}"
        by blast
      with l show "p \<in> ?L" by simp
    qed
  qed
qed

lemma rmatch_Eol_iff: "(rmatch Eol x \<noteq> []) = (snd x = [] \<or> snd x = [newline])"
  by (cases x) simp

lemma re_match_anchored:
  "re_match (Seq Bol (Seq r Eol)) s =
     (\<exists>x \<in> set (rmatch r (True, s)). snd x = [] \<or> snd x = [newline])"
  by (simp add: re_match_def rmatch_Eol_iff)

lemma digits_tail_iff:
  "(\<exists>m. 10 \<le> m \<and> m \<le> 15 \<and> m \<le> length s \<and> digits (take m s) \<and>
        (drop m s = [] \<or> drop m s = [newline])) =
   (\<exists>ds. (s = ds \<or> s = ds @ [newline]) \<and> digits ds \<and> 10 \<le> length ds \<and> length ds \<le> 15)"
  (is "?A = ?B")
proof
  assume ?A
  then obtain m where m: "10 \<le> m" "m \<le> 15" "m \<le> length s" "digits (take m s)"
    "drop m s = [] \<or> drop m s = [newline]"
    by blast
  have "s = take m s @ drop m s" by simp
  with m have "(s = take m s \<or> s = take m s @ [newline]) \<and> digits (take m s) \<and>
      10 \<le> length (take m s) \<and> length (take m s) \<le> 15"
    by (metis append_Nil2 length_take min.absorb2)
  then show ?B by blast
next
  assume ?B
  then obtain ds where ds: "s = ds \<or> s = ds @ [newline]" "digits ds" "10 \<le> length ds"
    "length ds \<le> 15"
    by blast
  then have "10 \<le> length ds \<and> length ds \<le> 15 \<and> length ds \<le> length s \<and>
      digits (take (length ds) s) \<and>
      (drop (length ds) s = [] \<or> drop (length ds) s = [newline])"
    by auto
  then show ?A by blast
qed

lemma rmatch_Seq_exactly_digits:
  "rmatch (Seq (exactly n Digit) r) (b, s) =
     (if n \<le> length s \<and> digits (take n s) then rmatch r (b \<and> n = 0, drop n s) else [])"
  by (auto simp: rmatch_exactly_digits)

lemma rmatch_Seq_Chr:
  "rmatch (Seq (Chr c) r) (b, s) =
     (if take 1 s = [c] then rmatch r (False, drop 1 s) else [])"
  by (cases s) simp_all

lemma rmatch_dashed_body:
  "rmatch dashed_body (b, s) =
     (if 12 \<le> length s \<and> dashed_shape (take 12 s) then [(False, drop 12 s)] else [])"
  unfolding dashed_body_def rmatch_Seq_exactly_digits rmatch_Seq_Chr rmatch_exactly_digits
  by (auto simp: dashed_shape_def min_def drop_take)

lemma re_match_spec_dashed:
  "re_match spec_dashed_re s = (\<exists>t. (s = t \<or> s = t @ [newline]) \<and> dashed_shape t)"
proof -
  have "re_match spec_dashed_re s =
      (12 \<le> length s \<and> dashed_shape (take 12 s) \<and> (drop 12 s = [] \<or> drop 12 s = [newline]))"
    unfolding spec_dashed_re_def re_match_anchored rmatch_dashed_body by auto
  also have "\<dots> = (\<exists>t. (s = t \<or> s = t @ [newline]) \<and> dashed_shape t)"
  proof
    assume a: "12 \<le> length s \<and> dashed_shape (take 12 s) \<and>
        (drop 12 s = [] \<or> drop 12 s = [newline])"
    have "s = take 12 s @ drop 12 s" by simp
    with a have "(s = take 12 s \<or> s = take 12 s @ [newline]) \<and> dashed_shape (take 12 s)"
      by (metis append_Nil2)
    then show "\<exists>t. (s = t \<or> s = t @ [newline]) \<and> dashed_shape t" by blast
  next
    assume "\<exists>t. (s = t \<or> s = t @ [newline]) \<and> dashed_shape t"
    then obtain t where t: "s = t \<or> s = t @ [newline]" "dashed_shape t" by blast
    then have "length t = 12" by (simp add: dashed_shape_def)
    with t show "12 \<le> length s \<and> dashed_shape (take 12 s) \<and>
        (drop 12 s = [] \<or> drop 12 s = [newline])"
      by auto
  qed
  finally show ?thesis .
qed

lemma bex_pairs: "(\<exists>x \<in> {(g m, h m) | m. P m}. R (snd x)) = (\<exists>m. P m \<and> R (h m))"
  by auto

lemma tail:
  "(\<exists>x \<in> set (rmatch (repeat 10 15 Digit) (b, u)). snd x = [] \<or> snd x = [newline]) =
     (\<exists>ds. (u = ds \<or> u = ds @ [newline]) \<and> digits ds \<and> 10 \<le> length ds \<and> length ds \<le> 15)"
proof -
  have "(\<exists>x \<in> set (rmatch (repeat 10 15 Digit) (b, u)). snd x = [] \<or> snd x = [newline]) =
      (\<exists>m. (10 \<le> m \<and> m \<le> 15 \<and> m \<le> length u \<and> digits (take m u)) \<and>
           (drop m u = [] \<or> drop m u = [newline]))"
    by (subst set_rmatch_repeat_digits, simp) (rule bex_pairs)
  then show ?thesis
    unfolding digits_tail_iff [symmetric] by simp
qed

lemma plus_not_digit: "\<not> is_digit CHR ''+''"
  by (simp add: is_digit_def)

lemma rmatch_intl_body:
  "set (rmatch intl_body (True, s)) =
     set (rmatch (repeat 10 15 Digit) (True, s)) \<union>
     (case s of [] \<Rightarrow> {} | c # r \<Rightarrow>
        if c = CHR ''+'' then set (rmatch (repeat 10 15 Digit) (False, r)) else {})"
  unfolding intl_body_def by (cases s) auto

lemma re_match_spec_intl:
  "re_match spec_intl_re s = (\<exists>t. (s = t \<or> s = t @ [newline]) \<and> intl_shape t)"
proof -
  define Q where "Q u = (\<exists>ds. (u = ds \<or> u = ds @ [newline]) \<and> digits ds \<and>
      10 \<le> length ds \<and> length ds \<le> 15)" for u
  have t: "(\<exists>x \<in> set (rmatch (repeat 10 15 Digit) (b, u)). snd x = [] \<or> snd x = [newline]) = Q u"
    for b u
    unfolding Q_def by (rule tail)
  have "re_match spec_intl_re s = (Q s \<or> (\<exists>r. s = CHR ''+'' # r \<and> Q r))"
  proof (cases s)
    case Nil
    then show ?thesis
      unfolding spec_intl_re_def re_match_anchored rmatch_intl_body
      by (simp add: bex_Un t del: rmatch.simps)
  next
    case (Cons c r)
    then show ?thesis
      unfolding spec_intl_re_def re_match_anchored rmatch_intl_body
      by (simp add: bex_Un t del: rmatch.simps)
  qed
  also have "\<dots> = (\<exists>t. (s = t \<or> s = t @ [newline]) \<and> intl_shape t)"
  proof
    assume "Q s \<or> (\<exists>r. s = CHR ''+'' # r \<and> Q r)"
    then show "\<exists>t. (s = t \<or> s = t @ [newline]) \<and> intl_shape t"
    proof
      assume "Q s"
      then obtain ds where ds: "s = ds \<or> s = ds @ [newline]" "digits ds" "10 \<le> length ds"
        "length ds \<le> 15"
        unfolding Q_def by blast
      then obtain c r where c: "ds = c # r" by (cases ds) auto
      with ds have "c \<noteq> CHR ''+''"
        using plus_not_digit by (auto simp: digits_def)
      with ds c have "intl_shape ds"
        by (simp add: intl_shape_def)
      with ds show ?thesis by blast
    next
      assume "\<exists>r. s = CHR ''+'' # r \<and> Q r"
      then obtain r ds where ds: "s = CHR ''+'' # r" "r = ds \<or> r = ds @ [newline]" "digits ds"
        "10 \<le> length ds" "length ds \<le> 15"
        unfolding Q_def by blast
      then have "intl_shape (CHR ''+'' # ds)"
        by (simp add: intl_shape_def)
      moreover from ds have "s = CHR ''+'' # ds \<or> s = (CHR ''+'' # ds) @ [newline]"
        by auto
      ultimately show ?thesis by blast
    qed
  next
    assume "\<exists>t. (s = t \<or> s = t @ [newline]) \<and> intl_shape t"
    then obtain t where t: "s = t \<or> s = t @ [newline]" "intl_shape t" by blast
    show "Q s \<or> (\<exists>r. s = CHR ''+'' # r \<and> Q r)"
    proof (cases t)
      case Nil
      with t show ?thesis by (simp add: intl_shape_def)
    next
      case (Cons c r)
      show ?thesis
      proof (cases "c = CHR ''+''")
        case True
        with Cons t have "digits r \<and> 10 \<le> length r \<and> length r \<le> 15"
          by (simp add: intl_shape_def)
        moreover from True Cons t have "s = CHR ''+'' # r \<or> s = CHR ''+'' # (r @ [newline])"
          by auto
        ultimately have "\<exists>u. s = CHR ''+'' # u \<and> Q u"
          unfolding Q_def by blast
        then show ?thesis by blast
      next
        case False
        with Cons t have "digits t \<and> 10 \<le> length t \<and> length t \<le> 15"
          by (simp add: intl_shape_def)
        with t have "Q s" unfolding Q_def by blast
        then show ?thesis by blast
      qed
    qed
  qed
  finally show ?thesis .
qed

lemma re_match_phone_re:
  "re_match phone_re s =
     (\<exists>t. (s = t \<or> s = t @ [newline]) \<and> (intl_shape t \<or> dashed_shape t))"
  unfolding phone_re_spec re_match_spec_intl re_match_spec_dashed by blast

lemma phone_acceptable_shapes:
  "phone_acceptable phone =
     (case phone of
        None \<Rightarrow> True
      | Some p \<Rightarrow>
          p = [] \<or> (\<exists>t. (p = t \<or> p = t @ [newline]) \<and> (intl_shape t \<or> dashed_shape t)))"
  by (simp add: phone_acceptable_def phone_re_spec [symmetric] re_match_phone_re
      split: option.splits)

lemma phone_re_examples:
  "re_match phone_re ''+1234567890''"
  "re_match phone_re ''123456789012345''"
  "re_match phone_re ''123-456-7890''"
  "re_match phone_re (''123-456-7890'' @ [newline])"
  "\<not> re_match phone_re ''123456789''"
  "\<not> re_match phone_re ''1234567890123456''"
  "\<not> re_match phone_re ''+123-456-7890''"
  "\<not> re_match phone_re (''123-456-7890'' @ [newline, newline])"
  by (simp_all add: phone_re_def intl_body_def dashed_body_def re_match_def repeat_def
      is_digit_def newline_def eval_nat_numeral)

subsection \<open>CreateCustomer\<close>

lemma CreateCustomer_mutate_unfold:
  "CreateCustomer_mutate ve st name email phone =
     (if \<not> ve email then Inr (st, failed ''Invalid email format'')
      else if email_exists st email then Inr (st, failed ''Email already exists'')
      else if phone_rejected phone then Inr (st, failed ''Invalid phone format'')
      else
        (let c = \<lparr>customer_id = Some (customer_seq st), customer_name = name,
                  customer_email = email, customer_phone = or_empty phone\<rparr>
         in Inr (st\<lparr>customers := customers st @ [c], customer_seq := Suc (customer_seq st)\<rparr>,
                 succeeded c ''Customer created successfully'')))"
  by (simp add: CreateCustomer_mutate_def CreateCustomer_try_def validate_email_def
      customer_save_def customer_insert_def Let_def)

lemma sample_email_ann: "sample_email ''ann@example.com''"
  by (simp add: sample_email_def)

lemma sample_email_bob: "sample_email ''bob@example.com''"
  by (simp add: sample_email_def)

lemma email_exists_ann_store: "email_exists ann_store ''ann@example.com''"
  by (simp add: email_exists_def ann_store_def ann_def)

lemma email_fresh_ann_store: "\<not> email_exists ann_store ''bob@example.com''"
  by (simp add: email_exists_def ann_store_def ann_def)

text \<open>
  C4. When the email is in valid format and already belongs to a customer in the store,
  CreateCustomer returns success=false with the message "Email already exists" and no
  customer, whatever the name and the phone are (also a phone that would fail the phone
  check); the store is the one it was called with.
\<close>

theorem CreateCustomer_email_exists:
  assumes "ve email" and "email_exists st email"
  shows "CreateCustomer_mutate ve st name email phone =
           Inr (st, \<lparr>entity = None, success = False, message = ''Email already exists''\<rparr>)"
  using assms by (simp add: CreateCustomer_mutate_unfold failed_def)

theorem CreateCustomer_email_exists_witness:
  "sample_email ''ann@example.com'' \<and> email_exists ann_store ''ann@example.com'' \<and>
   \<not> phone_acceptable (Some ''no phone'') \<and>
   CreateCustomer_mutate sample_email ann_store ''Bob'' ''ann@example.com'' (Some ''no phone'') =
     Inr (ann_store, \<lparr>entity = None, success = False, message = ''Email already exists''\<rparr>)"
proof -
  have p: "\<not> phone_acceptable (Some ''no phone'')"
    by (simp add: phone_acceptable_def spec_intl_re_def spec_dashed_re_def intl_body_def
        dashed_body_def re_match_def repeat_def is_digit_def eval_nat_numeral)
  from p sample_email_ann email_exists_ann_store
    CreateCustomer_email_exists
      [where ve = sample_email and email = "''ann@example.com''" and st = ann_store
         and name = "''Bob''" and phone = "Some ''no phone''"]
  show ?thesis by simp
qed

lemma phone_ok_intl: "re_match spec_intl_re ''+1234567890''"
  by (simp add: spec_intl_re_def intl_body_def re_match_def repeat_def is_digit_def
      eval_nat_numeral)

lemma phone_ok_dashed: "re_match spec_dashed_re ''123-456-7890''"
  by (simp add: spec_dashed_re_def dashed_body_def re_match_def is_digit_def eval_nat_numeral)

lemma phone_bad_short:
  "\<not> re_match spec_intl_re ''12345'' \<and> \<not> re_match spec_dashed_re ''12345''"
  by (simp add: spec_intl_re_def spec_dashed_re_def intl_body_def dashed_body_def re_match_def
      repeat_def is_digit_def eval_nat_numeral)

text \<open>
  C7. When the email is in valid format and not in the store and the phone, when there is
  one, matches an accepted pattern, CreateCustomer returns success=true with the message
  "Customer created successfully" and the customer it stored: the name and the email are
  those of the input, the phone is the input's phone (the empty string when the input has
  none), the key is the next one of the store.
\<close>

theorem CreateCustomer_valid:
  assumes "ve email" and "\<not> email_exists st email" and "phone_acceptable phone"
  shows "let c = \<lparr>customer_id = Some (customer_seq st), customer_name = name,
                   customer_email = email, customer_phone = or_empty phone\<rparr>
         in CreateCustomer_mutate ve st name email phone =
              Inr (st\<lparr>customers := customers st @ [c], customer_seq := Suc (customer_seq st)\<rparr>,
                   \<lparr>entity = Some c, success = True,
                    message = ''Customer created successfully''\<rparr>)"
  using assms by (simp add: CreateCustomer_mutate_unfold phone_rejected_iff succeeded_def Let_def)

theorem CreateCustomer_valid_witness:
  "sample_email ''bob@example.com'' \<and> \<not> email_exists ann_store ''bob@example.com'' \<and>
   phone_acceptable (Some ''+1234567890'') \<and>
   CreateCustomer_mutate sample_email ann_store ''Bob'' ''bob@example.com'' (Some ''+1234567890'') =
     Inr (\<lparr>customers =
             [ann, \<lparr>customer_id = Some 2, customer_name = ''Bob'',
                    customer_email = ''bob@example.com'', customer_phone = ''+1234567890''\<rparr>],
           products = [], orders = [], customer_seq = 3, product_seq = 1, order_seq = 1\<rparr>,
          \<lparr>entity = Some \<lparr>customer_id = Some 2, customer_name = ''Bob'',
                          customer_email = ''bob@example.com'',
                          customer_phone = ''+1234567890''\<rparr>,
           success = True, message = ''Customer created successfully''\<rparr>)"
proof -
  have p: "phone_acceptable (Some ''+1234567890'')"
    by (simp add: phone_acceptable_def phone_ok_intl)
  from p sample_email_bob email_fresh_ann_store
    CreateCustomer_valid
      [where ve = sample_email and email = "''bob@example.com''" and st = ann_store
         and name = "''Bob''" and phone = "Some ''+1234567890''"]
  show ?thesis by (simp add: ann_store_def Let_def)
qed

text \<open>
  C5. With a valid, fresh email: an absent or empty phone passes the phone check (the
  customer is created); a non-empty phone that matches neither \<^verbatim>\<open>^\+?\d{10,15}$\<close> nor
  \<^verbatim>\<open>^\d{3}-\d{3}-\d{4}$\<close> gives success=false with the message "Invalid phone format"
  and leaves the store as it was; a non-empty phone that matches one of them passes.
\<close>

theorem CreateCustomer_phone_check:
  assumes "ve email" and "\<not> email_exists st email"
  shows "let c = \<lparr>customer_id = Some (customer_seq st), customer_name = name,
                   customer_email = email, customer_phone = or_empty phone\<rparr>;
             created = Inr (st\<lparr>customers := customers st @ [c],
                               customer_seq := Suc (customer_seq st)\<rparr>,
                            \<lparr>entity = Some c, success = True,
                             message = ''Customer created successfully''\<rparr>);
             rejected = Inr (st, \<lparr>entity = None, success = False,
                                  message = ''Invalid phone format''\<rparr>);
             r = CreateCustomer_mutate ve st name email phone
         in (phone = None \<or> phone = Some [] \<longrightarrow> r = created) \<and>
            (\<forall>p. phone = Some p \<and> p \<noteq> [] \<and> \<not> re_match spec_intl_re p \<and>
                  \<not> re_match spec_dashed_re p \<longrightarrow> r = rejected) \<and>
            (\<forall>p. phone = Some p \<and> p \<noteq> [] \<and>
                  (re_match spec_intl_re p \<or> re_match spec_dashed_re p) \<longrightarrow> r = created)"
  using assms
  by (auto simp: CreateCustomer_mutate_unfold phone_rejected_iff phone_acceptable_def
      succeeded_def failed_def Let_def)

theorem CreateCustomer_phone_check_witness:
  "sample_email ''bob@example.com'' \<and> \<not> email_exists ann_store ''bob@example.com'' \<and>
   \<not> re_match spec_intl_re ''12345'' \<and> \<not> re_match spec_dashed_re ''12345'' \<and>
   CreateCustomer_mutate sample_email ann_store ''Bob'' ''bob@example.com'' (Some ''12345'') =
     Inr (ann_store, \<lparr>entity = None, success = False, message = ''Invalid phone format''\<rparr>) \<and>
   re_match spec_dashed_re ''123-456-7890'' \<and>
   CreateCustomer_mutate sample_email ann_store ''Bob'' ''bob@example.com''
       (Some ''123-456-7890'') =
     Inr (ann_store\<lparr>customers :=
            [ann, \<lparr>customer_id = Some 2, customer_name = ''Bob'',
                   customer_email = ''bob@example.com'', customer_phone = ''123-456-7890''\<rparr>],
            customer_seq := 3\<rparr>,
          \<lparr>entity = Some \<lparr>customer_id = Some 2, customer_name = ''Bob'',
                          customer_email = ''bob@example.com'',
                          customer_phone = ''123-456-7890''\<rparr>,
           success = True, message = ''Customer created successfully''\<rparr>) \<and>
   CreateCustomer_mutate sample_email ann_store ''Bob'' ''bob@example.com'' None =
     Inr (ann_store\<lparr>customers :=
            [ann, \<lparr>customer_id = Some 2, customer_name = ''Bob'',
                   customer_email = ''bob@example.com'', customer_phone = []\<rparr>],
            customer_seq := 3\<rparr>,
          \<lparr>entity = Some \<lparr>customer_id = Some 2, customer_name = ''Bob'',
                          customer_email = ''bob@example.com'', customer_phone = []\<rparr>,
           success = True, message = ''Customer created successfully''\<rparr>)"
proof -
  note t = CreateCustomer_phone_check [OF _ email_fresh_ann_store, where ve = sample_email,
      OF sample_email_bob, where name = "''Bob''"]
  have s: "customers ann_store = [ann]" "customer_seq ann_store = 2"
    by (simp_all add: ann_store_def)
  from t [where phone = "Some ''12345''"] phone_bad_short
  have a: "CreateCustomer_mutate sample_email ann_store ''Bob'' ''bob@example.com'' (Some ''12345'') =
     Inr (ann_store, \<lparr>entity = None, success = False, message = ''Invalid phone format''\<rparr>)"
    by (simp add: Let_def)
  from t [where phone = "Some ''123-456-7890''"] phone_ok_dashed
  have b: "CreateCustomer_mutate sample_email ann_store ''Bob'' ''bob@example.com''
       (Some ''123-456-7890'') =
     Inr (ann_store\<lparr>customers :=
            [ann, \<lparr>customer_id = Some 2, customer_name = ''Bob'',
                   customer_email = ''bob@example.com'', customer_phone = ''123-456-7890''\<rparr>],
            customer_seq := 3\<rparr>,
          \<lparr>entity = Some \<lparr>customer_id = Some 2, customer_name = ''Bob'',
                          customer_email = ''bob@example.com'',
                          customer_phone = ''123-456-7890''\<rparr>,
           success = True, message = ''Customer created successfully''\<rparr>)"
    by (simp add: Let_def s)
  from t [where phone = None]
  have c: "CreateCustomer_mutate sample_email ann_store ''Bob'' ''bob@example.com'' None =
     Inr (ann_store\<lparr>customers :=
            [ann, \<lparr>customer_id = Some 2, customer_name = ''Bob'',
                   customer_email = ''bob@example.com'', customer_phone = []\<rparr>],
            customer_seq := 3\<rparr>,
          \<lparr>entity = Some \<lparr>customer_id = Some 2, customer_name = ''Bob'',
                          customer_email = ''bob@example.com'', customer_phone = []\<rparr>,
           success = True, message = ''Customer created successfully''\<rparr>)"
    by (simp add: Let_def s)
  from a b c sample_email_bob email_fresh_ann_store phone_bad_short phone_ok_dashed
  show ?thesis by simp
qed

subsection \<open>CreateProduct\<close>

lemma CreateProduct_mutate_stock:
  "CreateProduct_mutate st name price (Passed (Some n)) =
     (if price \<le> 0 then Inr (st, failed ''Price must be positive'')
      else if n < 0 then Inr (st, failed ''Stock cannot be negative'')
      else
        (let p = \<lparr>product_id = Some (product_seq st), product_name = name,
                  product_price = price, product_stock = n\<rparr>
         in Inr (st\<lparr>products := products st @ [p], product_seq := Suc (product_seq st)\<rparr>,
                 succeeded p ''Product created successfully'')))"
  by (simp add: CreateProduct_mutate_def product_save_def Let_def)

lemma CreateProduct_mutate_omitted:
  "CreateProduct_mutate st name price Omitted =
     CreateProduct_mutate st name price (Passed (Some 0))"
  by (simp add: CreateProduct_mutate_def)


text \<open>
  C6. The claim: for every CreateProduct input, a price that is not positive gives "Price
  must be positive", otherwise a negative stock gives "Stock cannot be negative", otherwise
  the product is persisted with success=true. The first two parts hold
  (\<open>CreateProduct_mutate_price\<close>, \<open>CreateProduct_mutate_stock\<close>, also when stock is left
  out, \<open>CreateProduct_mutate_omitted\<close>). With a positive price and a stock passed as null
  the comparison \<^verbatim>\<open>stock < 0\<close> raises \<^verbatim>\<open>TypeError\<close>: no result is returned and nothing is
  persisted.
\<close>

theorem CreateProduct_null_stock:
  "CreateProduct_mutate empty_store ''Widget'' 10 (Passed None) = Inl TypeError"
  by (simp add: CreateProduct_mutate_def)

subsection \<open>The store invariant\<close>

lemma keys_ok_snoc: "keys_ok ks n \<Longrightarrow> keys_ok (ks @ [Some n]) (Suc n)"
  by (auto simp: keys_ok_def list_all_iff split: option.splits)

lemma keys_ok_Suc: "keys_ok ks n \<Longrightarrow> keys_ok ks (Suc n)"
  by (auto simp: keys_ok_def list_all_iff split: option.splits)

lemma store_ok_empty: "store_ok empty_store"
  by (simp add: store_ok_def empty_store_def keys_ok_def)

lemma store_ok_customer_insert: "store_ok st \<Longrightarrow> store_ok (fst (customer_insert st c))"
  by (simp add: store_ok_def customer_insert_def Let_def keys_ok_snoc)

lemma store_ok_customer_save:
  "customer_save st c = Inr (st', c') \<Longrightarrow> store_ok st \<Longrightarrow> store_ok st'"
  using store_ok_customer_insert [of st c]
  by (auto simp: customer_save_def split: if_splits)

lemma store_ok_bulk_create:
  "bulk_create st cs = Inr (st', cs') \<Longrightarrow> store_ok st \<Longrightarrow> store_ok st'"
proof (induction cs arbitrary: st st' cs')
  case Nil
  then show ?case by simp
next
  case (Cons c cs)
  from Cons.prems(1) obtain st1 c1 st2 cs2
    where s: "customer_save st c = Inr (st1, c1)"
      and b: "bulk_create st1 cs = Inr (st2, cs2)" and e: "st' = st2"
    by (auto split: sum.splits)
  from s Cons.prems(2) have "store_ok st1"
    by (rule store_ok_customer_save)
  with b have "store_ok st2"
    by (rule Cons.IH)
  with e show ?case by simp
qed

text \<open>The email of a customer stays unique as well.\<close>

lemma email_exists_insert:
  "email_exists (fst (customer_insert st c)) e = (email_exists st e \<or> e = customer_email c)"
  by (auto simp: email_exists_def customer_insert_def Let_def list_ex_iff)

lemma store_ok_product_save: "store_ok st \<Longrightarrow> store_ok (fst (product_save st p))"
  by (simp add: store_ok_def product_save_def Let_def keys_ok_snoc)

lemma store_ok_order_create: "store_ok st \<Longrightarrow> store_ok (fst (order_create st c d a))"
  by (simp add: store_ok_def order_create_def Let_def keys_ok_snoc)

lemma order_id_products_update:
  "map (order_id \<circ> (\<lambda>row. if order_id row = k then row\<lparr>order_products := ps\<rparr> else row)) rows =
     map order_id rows"
  by (induction rows) simp_all

lemma store_ok_products_set: "store_ok st \<Longrightarrow> store_ok (fst (products_set st od ps))"
  by (simp add: store_ok_def products_set_def order_id_products_update)

lemma store_ok_shop: "store_ok shop_store"
  by (simp add: store_ok_def shop_store_def keys_ok_def widget_def gadget_def ann_def)

subsection \<open>CreateOrder\<close>

lemma py_sum_from: "foldl (+) a xs = a + sum_list xs" for a :: real
  by (induction xs arbitrary: a) simp_all

lemma py_sum_eq: "py_sum xs = sum_list xs"
  by (simp add: py_sum_def py_sum_from)

lemma customer_get_malformed:
  "key_of pk = None \<Longrightarrow> customer_get key_of st pk = Inl ValueError"
  by (simp add: customer_get_def)

lemma customer_get_miss:
  "key_of pk \<noteq> None \<Longrightarrow> \<not> customer_known key_of st pk \<Longrightarrow>
     customer_get key_of st pk = Inl ObjectDoesNotExist"
  by (auto simp: customer_get_def customer_known_def list_ex_iff find_None_iff
      split: option.splits)
    (metis find_Some_iff nth_mem)

lemma customer_get_hit:
  "customer_known key_of st pk \<Longrightarrow>
     \<exists>c. customer_get key_of st pk = Inr c \<and> c \<in> set (customers st)"
  by (auto simp: customer_get_def customer_known_def list_ex_iff find_None_iff find_Some_iff
      split: option.splits)

lemma ids_ok_simps:
  "ids_ok key_of [] = True"
  "ids_ok key_of (None # ids) = ids_ok key_of ids"
  "ids_ok key_of (Some s # ids) = (key_of s \<noteq> None \<and> ids_ok key_of ids)"
  by (simp_all add: ids_ok_def)

lemma parsed_simps:
  "parsed key_of [] = []"
  "parsed key_of (None # ids) = parsed key_of ids"
  "parsed key_of (Some s # ids) =
     (case key_of s of None \<Rightarrow> parsed key_of ids | Some i \<Rightarrow> i # parsed key_of ids)"
  by (simp_all add: parsed_def split: option.splits)

lemma prep_ids_eq:
  "prep_ids key_of ids = (if ids_ok key_of ids then Inr (parsed key_of ids) else Inl ValueError)"
  by (induction key_of ids rule: prep_ids.induct)
    (auto simp: ids_ok_simps parsed_simps split: option.splits)

lemma wanted_simps:
  "wanted key_of [] i = False"
  "wanted key_of (None # ids) i = wanted key_of ids i"
  "wanted key_of (Some s # ids) i = (key_of s = Some i \<or> wanted key_of ids i)"
  by (simp_all add: wanted_def)

lemma in_parsed: "(i \<in> set (parsed key_of ids)) = wanted key_of ids i"
proof (induction ids)
  case Nil
  then show ?case by (simp add: parsed_simps wanted_simps)
next
  case (Cons x ids)
  then show ?case
    by (cases x) (auto simp: parsed_simps wanted_simps split: option.splits)
qed

lemma has_key_parsed:
  "list_ex (has_key k) (parsed key_of ids) =
     (case k of None \<Rightarrow> False | Some n \<Rightarrow> wanted key_of ids (int n))"
  by (cases k) (auto simp: list_ex_iff has_key_def in_parsed)

lemma product_filter_id_in_eq:
  "product_filter_id_in key_of st ids =
     (if ids_ok key_of ids then Inr (resolved_rows key_of st ids) else Inl ValueError)"
  by (simp add: product_filter_id_in_def prep_ids_eq resolved_rows_def has_key_parsed)

lemma distinct_resolved_rows:
  "store_ok st \<Longrightarrow> distinct (map product_id (resolved_rows key_of st ids))"
  by (simp add: store_ok_def keys_ok_def resolved_rows_def distinct_map_filter)

lemma resolved_rows_count:
  assumes "store_ok st"
  shows "length (resolved_rows key_of st ids) = card (resolved key_of st ids)"
proof -
  from assms have "distinct (resolved_rows key_of st ids)"
    using distinct_resolved_rows distinct_map by blast
  then show ?thesis
    by (simp add: distinct_card resolved_def)
qed

lemma length_parsed: "length (parsed key_of ids) \<le> length ids"
proof (induction ids)
  case Nil
  then show ?case by (simp add: parsed_simps)
next
  case (Cons x ids)
  then show ?case
    by (cases x) (auto simp: parsed_simps split: option.splits)
qed

lemma length_parsed_null: "None \<in> set ids \<Longrightarrow> length (parsed key_of ids) < length ids"
proof (induction ids)
  case Nil
  then show ?case by simp
next
  case (Cons x ids)
  show ?case
  proof (cases x)
    case None
    with length_parsed [of key_of ids] show ?thesis
      by (simp add: parsed_simps)
  next
    case (Some s)
    with Cons have "length (parsed key_of ids) < length ids" by simp
    with Some show ?thesis
      by (simp add: parsed_simps split: option.splits)
  qed
qed

lemma parsed_map:
  "None \<notin> set ids \<Longrightarrow> ids_ok key_of ids \<Longrightarrow>
     parsed key_of ids = map (\<lambda>x. the (key_of (the x))) ids"
proof (induction ids)
  case Nil
  then show ?case by (simp add: parsed_simps)
next
  case (Cons x ids)
  from Cons.prems obtain s where x: "x = Some s" by (cases x) auto
  with Cons have "parsed key_of ids = map (\<lambda>x. the (key_of (the x))) ids"
    by (simp add: ids_ok_simps)
  with Cons.prems x show ?case
    by (auto simp: parsed_simps ids_ok_simps)
qed

lemma card_parsed_duplicate:
  assumes "ids_ok key_of ids" and "\<not> distinct ids"
  shows "card (set (parsed key_of ids)) < length ids"
proof (cases "None \<in> set ids")
  case True
  then have "length (parsed key_of ids) < length ids"
    by (rule length_parsed_null)
  with card_length [of "parsed key_of ids"] show ?thesis by simp
next
  case False
  from False assms(1) have p: "parsed key_of ids = map (\<lambda>x. the (key_of (the x))) ids"
    by (rule parsed_map)
  from assms(2) have "\<not> distinct (parsed key_of ids)"
    unfolding p using distinct_map by blast
  then have "card (set (parsed key_of ids)) < length (parsed key_of ids)"
    by (metis card_length le_neq_implies_less card_distinct)
  with length_parsed [of key_of ids] show ?thesis by simp
qed

lemma resolved_rows_le:
  assumes "store_ok st"
  shows "length (resolved_rows key_of st ids) \<le> card (set (parsed key_of ids))"
proof -
  let ?ps = "resolved_rows key_of st ids"
  have d: "distinct (map product_id ?ps)"
    using assms by (rule distinct_resolved_rows)
  have "set (map product_id ?ps) \<subseteq> (\<lambda>i. Some (nat i)) ` set (parsed key_of ids)"
  proof
    fix k assume "k \<in> set (map product_id ?ps)"
    then obtain n where "k = Some n" "wanted key_of ids (int n)"
      by (auto simp: resolved_rows_def split: option.splits)
    then have "int n \<in> set (parsed key_of ids)" "k = Some (nat (int n))"
      by (simp_all add: in_parsed)
    then show "k \<in> (\<lambda>i. Some (nat i)) ` set (parsed key_of ids)"
      by blast
  qed
  then have "card (set (map product_id ?ps)) \<le>
      card ((\<lambda>i. Some (nat i)) ` set (parsed key_of ids))"
    by (intro card_mono) auto
  also have "\<dots> \<le> card (set (parsed key_of ids))"
    by (rule card_image_le) simp
  finally have "card (set (map product_id ?ps)) \<le> card (set (parsed key_of ids))" .
  moreover have "card (set (map product_id ?ps)) = length ?ps"
    using d by (metis distinct_card length_map)
  ultimately show ?thesis by simp
qed

lemma duplicate_ids_mismatch:
  assumes "store_ok st" and "ids_ok key_of ids" and "\<not> distinct ids"
  shows "length (resolved_rows key_of st ids) \<noteq> length ids"
  using resolved_rows_le [OF assms(1), of key_of ids] card_parsed_duplicate [OF assms(2,3)]
  by simp

lemma CreateOrder_mutate_malformed:
  "key_of cid = None \<Longrightarrow> CreateOrder_mutate key_of now st cid ids d = Inl ValueError"
  by (simp add: CreateOrder_mutate_def customer_get_malformed)

lemma CreateOrder_mutate_miss:
  "key_of cid \<noteq> None \<Longrightarrow> \<not> customer_known key_of st cid \<Longrightarrow>
     CreateOrder_mutate key_of now st cid ids d = Inr (st, failed ''Customer not found'')"
  by (simp add: CreateOrder_mutate_def customer_get_miss)

lemma CreateOrder_mutate_hit:
  assumes "customer_get key_of st cid = Inr cust"
  shows "CreateOrder_mutate key_of now st cid ids d =
     (if ids = [] then Inr (st, failed ''No products selected'')
      else if \<not> ids_ok key_of ids then Inl ValueError
      else if length (resolved_rows key_of st ids) \<noteq> length ids
      then Inr (st, failed ''Invalid product ID(s)'')
      else
        (let ps = resolved_rows key_of st ids;
             od = \<lparr>order_id = Some (order_seq st), order_customer = cust,
                   order_date = date_or d now, total_amount = py_sum (map product_price ps),
                   order_products = ps\<rparr>
         in Inr (st\<lparr>orders :=
                      map (\<lambda>row. if order_id row = Some (order_seq st)
                                 then row\<lparr>order_products := ps\<rparr> else row) (orders st) @ [od],
                     order_seq := Suc (order_seq st)\<rparr>,
                 succeeded od ''Order created successfully'')))"
  using assms
  by (simp add: CreateOrder_mutate_def product_filter_id_in_eq order_create_def
      products_set_def Let_def)

lemma decimal_key_samples:
  "decimal_key ''1'' = Some 1" "decimal_key ''2'' = Some 2" "decimal_key ''7'' = Some 7"
  "decimal_key ''9'' = Some 9" "decimal_key ''abc'' = None" "decimal_key ''x'' = None"
  by (simp_all add: decimal_key_def is_digit_def digit_value_def)

lemma customer_known_shop:
  "customer_known decimal_key shop_store ''1''" "\<not> customer_known decimal_key shop_store ''7''"
  by (simp_all add: customer_known_def decimal_key_samples has_key_def shop_store_def ann_def)

lemma customer_get_shop: "customer_get decimal_key shop_store ''1'' = Inr ann"
  by (simp add: customer_get_def decimal_key_samples has_key_def shop_store_def ann_def)

lemma resolved_rows_shop:
  "resolved_rows decimal_key shop_store [Some ''1'', Some ''2''] = [widget, gadget]"
  "resolved_rows decimal_key shop_store [Some ''1'', Some ''9''] = [widget]"
  "resolved_rows decimal_key shop_store [Some ''1'', Some ''1''] = [widget]"
  "resolved_rows decimal_key shop_store [Some ''1'', None] = [widget]"
  by (simp_all add: resolved_rows_def wanted_def decimal_key_samples shop_store_def
      widget_def gadget_def)

lemma ids_ok_shop:
  "ids_ok decimal_key [Some ''1'', Some ''2'']" "ids_ok decimal_key [Some ''1'', Some ''9'']"
  "ids_ok decimal_key [Some ''1'', Some ''1'']" "ids_ok decimal_key [Some ''1'', None]"
  "\<not> ids_ok decimal_key [Some ''1'', Some ''x'']"
  by (simp_all add: ids_ok_def decimal_key_samples)

lemma CreateOrder_checks_numeric:
  assumes "key_of cid \<noteq> None" and "ids_ok key_of ids"
  shows "let r = CreateOrder_mutate key_of now st cid ids d in
     (\<not> customer_known key_of st cid \<longrightarrow>
        r = Inr (st, \<lparr>entity = None, success = False, message = ''Customer not found''\<rparr>)) \<and>
     (customer_known key_of st cid \<and> ids = [] \<longrightarrow>
        r = Inr (st, \<lparr>entity = None, success = False, message = ''No products selected''\<rparr>)) \<and>
     (customer_known key_of st cid \<and> ids \<noteq> [] \<and>
      length (resolved_rows key_of st ids) \<noteq> length ids \<longrightarrow>
        r = Inr (st, \<lparr>entity = None, success = False, message = ''Invalid product ID(s)''\<rparr>)) \<and>
     (store_ok st \<and> customer_known key_of st cid \<and> ids \<noteq> [] \<and>
      card (resolved key_of st ids) \<noteq> length ids \<longrightarrow>
        r = Inr (st, \<lparr>entity = None, success = False, message = ''Invalid product ID(s)''\<rparr>)) \<and>
     (store_ok st \<and> customer_known key_of st cid \<and> \<not> distinct ids \<longrightarrow>
        r = Inr (st, \<lparr>entity = None, success = False, message = ''Invalid product ID(s)''\<rparr>))"
proof (cases "customer_known key_of st cid")
  case False
  with assms(1) show ?thesis
    by (simp add: CreateOrder_mutate_miss failed_def Let_def)
next
  case True
  then obtain cust where g: "customer_get key_of st cid = Inr cust"
    using customer_get_hit by blast
  have "ids \<noteq> []" if "\<not> distinct ids"
    using that by auto
  moreover have "length (resolved_rows key_of st ids) \<noteq> length ids"
    if "store_ok st" and "card (resolved key_of st ids) \<noteq> length ids"
    using that by (simp add: resolved_rows_count)
  moreover have "length (resolved_rows key_of st ids) \<noteq> length ids"
    if "store_ok st" and "\<not> distinct ids"
    using that assms(2) by (intro duplicate_ids_mismatch)
  ultimately show ?thesis
    using True assms(2)
    by (auto simp: CreateOrder_mutate_hit [OF g] failed_def Let_def)
qed

text \<open>
  C1. The claim: CreateOrder runs its checks in order and stops at the first that fails;
  a customer id that resolves to no customer gives "Customer not found", an empty list
  of product ids "No products selected", a count of resolved products that differs from
  the length of the list "Invalid product ID(s)". For ids that are numbers this is what
  the code does (\<open>CreateOrder_checks_numeric\<close>). An id that is not a number resolves to
  nothing either, but the lookup raises \<^verbatim>\<open>ValueError\<close>, which \<^verbatim>\<open>mutate\<close> does not catch:
  with the customer id \<^verbatim>\<open>"abc"\<close>, and with the product id \<^verbatim>\<open>"x"\<close> for an existing customer,
  no result is returned.
\<close>

theorem CreateOrder_malformed_id:
  "CreateOrder_mutate decimal_key 100 shop_store ''abc'' [Some ''1'', Some ''2''] None =
     Inl ValueError \<and>
   CreateOrder_mutate decimal_key 100 shop_store ''1'' [Some ''1'', Some ''x''] None =
     Inl ValueError"
proof
  show "CreateOrder_mutate decimal_key 100 shop_store ''abc'' [Some ''1'', Some ''2''] None =
     Inl ValueError"
    by (rule CreateOrder_mutate_malformed) (rule decimal_key_samples)
  show "CreateOrder_mutate decimal_key 100 shop_store ''1'' [Some ''1'', Some ''x''] None =
     Inl ValueError"
    unfolding CreateOrder_mutate_hit [OF customer_get_shop]
    by (simp add: ids_ok_shop)
qed


lemma CreateOrder_success:
  assumes "CreateOrder_mutate key_of now st cid ids d = Inr (st', r)" and "success r"
  shows "\<exists>cust. customer_get key_of st cid = Inr cust \<and> ids \<noteq> [] \<and> ids_ok key_of ids \<and>
           length (resolved_rows key_of st ids) = length ids \<and>
           r = succeeded
                 \<lparr>order_id = Some (order_seq st), order_customer = cust,
                  order_date = date_or d now,
                  total_amount = py_sum (map product_price (resolved_rows key_of st ids)),
                  order_products = resolved_rows key_of st ids\<rparr>
                 ''Order created successfully'' \<and>
           st' = st\<lparr>orders :=
                      map (\<lambda>row. if order_id row = Some (order_seq st)
                                 then row\<lparr>order_products := resolved_rows key_of st ids\<rparr>
                                 else row) (orders st) @
                      [\<lparr>order_id = Some (order_seq st), order_customer = cust,
                        order_date = date_or d now,
                        total_amount = py_sum (map product_price (resolved_rows key_of st ids)),
                        order_products = resolved_rows key_of st ids\<rparr>],
                    order_seq := Suc (order_seq st)\<rparr>"
proof (cases "customer_get key_of st cid")
  case (Inl e)
  with assms show ?thesis
    by (cases e) (auto simp: CreateOrder_mutate_def failed_def)
next
  case (Inr cust)
  from assms show ?thesis
    unfolding CreateOrder_mutate_hit [OF Inr] Inr
    by (auto simp: failed_def Let_def split: if_splits)
qed

lemma two_products:
  fixes f :: "product \<Rightarrow> real"
  assumes ok: "store_ok st"
    and p1: "p1 \<in> set (products st)" "product_id p1 = Some i1" "key_of s1 = Some (int i1)"
    and p2: "p2 \<in> set (products st)" "product_id p2 = Some i2" "key_of s2 = Some (int i2)"
    and ne: "i1 \<noteq> i2"
  shows "set (resolved_rows key_of st [Some s1, Some s2]) = {p1, p2}"
    and "length (resolved_rows key_of st [Some s1, Some s2]) = 2"
    and "sum_list (map f (resolved_rows key_of st [Some s1, Some s2])) = f p1 + f p2"
proof -
  let ?ps = "resolved_rows key_of st [Some s1, Some s2]"
  from ok have inj: "inj_on product_id (set (products st))"
    by (simp add: store_ok_def keys_ok_def distinct_map)
  have s: "set ?ps = {p1, p2}"
  proof
    show "set ?ps \<subseteq> {p1, p2}"
    proof
      fix p assume "p \<in> set ?ps"
      with p1 p2 have m: "p \<in> set (products st)"
        and "product_id p = Some i1 \<or> product_id p = Some i2"
        by (auto simp: resolved_rows_def wanted_simps split: option.splits)
      with inj p1 p2 have "p = p1 \<or> p = p2"
        by (metis inj_onD)
      then show "p \<in> {p1, p2}" by simp
    qed
    show "{p1, p2} \<subseteq> set ?ps"
      using p1 p2 by (simp add: resolved_rows_def wanted_simps)
  qed
  from ok have d: "distinct ?ps"
    using distinct_resolved_rows distinct_map by blast
  from p1 p2 ne have pne: "p1 \<noteq> p2" by auto
  show "set ?ps = {p1, p2}" by (rule s)
  from d s pne show "length ?ps = 2"
    by (metis card_2_iff distinct_card)
  from d have "sum_list (map f ?ps) = sum f (set ?ps)"
    by (rule sum_list_distinct_conv_sum_set)
  with s pne show "sum_list (map f ?ps) = f p1 + f p2"
    by simp
qed

text \<open>
  C2. The order returned by a successful CreateOrder has as total_amount the sum of the
  prices of the products resolved from the requested ids, and these products are the
  order's products; the order is in the new store. In a store with unique keys that holds
  a product priced 10.00 and another priced 15.50, CreateOrder of an existing customer
  over both ids succeeds with total_amount 25.50 and exactly these two products.
\<close>

theorem CreateOrder_total:
  "(CreateOrder_mutate key_of now st cid ids d = Inr (st', r) \<and> success r \<longrightarrow>
      (case entity r of
         None \<Rightarrow> False
       | Some od \<Rightarrow>
           total_amount od = sum_list (map product_price (resolved_rows key_of st ids)) \<and>
           order_products od = resolved_rows key_of st ids \<and>
           set (order_products od) = resolved key_of st ids \<and>
           od \<in> set (orders st'))) \<and>
   (store_ok st \<and> customer_known key_of st cid \<and>
    p1 \<in> set (products st) \<and> product_id p1 = Some i1 \<and> key_of s1 = Some (int i1) \<and>
    product_price p1 = 10 \<and>
    p2 \<in> set (products st) \<and> product_id p2 = Some i2 \<and> key_of s2 = Some (int i2) \<and>
    product_price p2 = 15.5 \<and>
    i1 \<noteq> i2 \<longrightarrow>
      (case CreateOrder_mutate key_of now st cid [Some s1, Some s2] d of
         Inl e \<Rightarrow> False
       | Inr (st2, r2) \<Rightarrow>
           success r2 \<and>
           (case entity r2 of
              None \<Rightarrow> False
            | Some od \<Rightarrow> total_amount od = 25.5 \<and> set (order_products od) = {p1, p2})))"
proof (intro conjI impI)
  assume "CreateOrder_mutate key_of now st cid ids d = Inr (st', r) \<and> success r"
  then show "case entity r of
         None \<Rightarrow> False
       | Some od \<Rightarrow>
           total_amount od = sum_list (map product_price (resolved_rows key_of st ids)) \<and>
           order_products od = resolved_rows key_of st ids \<and>
           set (order_products od) = resolved key_of st ids \<and>
           od \<in> set (orders st')"
    by (auto dest!: CreateOrder_success simp: succeeded_def py_sum_eq resolved_def)
next
  assume a: "store_ok st \<and> customer_known key_of st cid \<and>
    p1 \<in> set (products st) \<and> product_id p1 = Some i1 \<and> key_of s1 = Some (int i1) \<and>
    product_price p1 = 10 \<and>
    p2 \<in> set (products st) \<and> product_id p2 = Some i2 \<and> key_of s2 = Some (int i2) \<and>
    product_price p2 = 15.5 \<and>
    i1 \<noteq> i2"
  then obtain cust where g: "customer_get key_of st cid = Inr cust"
    using customer_get_hit by blast
  from a have l: "length (resolved_rows key_of st [Some s1, Some s2]) = 2"
    and s: "set (resolved_rows key_of st [Some s1, Some s2]) = {p1, p2}"
    and t: "sum_list (map product_price (resolved_rows key_of st [Some s1, Some s2])) =
              product_price p1 + product_price p2"
    using two_products [of st p1 i1 key_of s1 p2 i2 s2] by blast+
  from a t have "py_sum (map product_price (resolved_rows key_of st [Some s1, Some s2])) = 25.5"
    by (simp add: py_sum_eq)
  moreover from a have "ids_ok key_of [Some s1, Some s2]"
    by (simp add: ids_ok_simps)
  ultimately show "case CreateOrder_mutate key_of now st cid [Some s1, Some s2] d of
         Inl e \<Rightarrow> False
       | Inr (st2, r2) \<Rightarrow>
           success r2 \<and>
           (case entity r2 of
              None \<Rightarrow> False
            | Some od \<Rightarrow> total_amount od = 25.5 \<and> set (order_products od) = {p1, p2})"
    using l s by (simp add: CreateOrder_mutate_hit [OF g] succeeded_def Let_def)
qed

lemma CreateOrder_shop:
  "CreateOrder_mutate decimal_key 100 shop_store ''1'' [Some ''1'', Some ''2''] None =
     Inr (shop_store\<lparr>orders := [first_order], order_seq := 2\<rparr>,
          \<lparr>entity = Some first_order, success = True,
           message = ''Order created successfully''\<rparr>)"
proof -
  have s: "orders shop_store = []" "order_seq shop_store = 1"
    by (simp_all add: shop_store_def)
  have p: "py_sum [product_price widget, product_price gadget] = 25.5"
    by (simp add: py_sum_def widget_def gadget_def)
  show ?thesis
    unfolding CreateOrder_mutate_hit [OF customer_get_shop]
    by (simp add: ids_ok_shop resolved_rows_shop succeeded_def Let_def first_order_def s p
        del: One_nat_def)
qed

theorem CreateOrder_total_witness:
  "CreateCustomer_mutate sample_email empty_store ''Ann'' ''ann@example.com'' None =
     Inr (ann_store, \<lparr>entity = Some ann, success = True,
                      message = ''Customer created successfully''\<rparr>) \<and>
   CreateProduct_mutate ann_store ''Widget'' 10 Omitted =
     Inr (ann_store\<lparr>products := [widget], product_seq := 2\<rparr>,
          \<lparr>entity = Some widget, success = True,
           message = ''Product created successfully''\<rparr>) \<and>
   CreateProduct_mutate (ann_store\<lparr>products := [widget], product_seq := 2\<rparr>) ''Gadget'' 15.5
       (Passed (Some 3)) =
     Inr (shop_store, \<lparr>entity = Some gadget, success = True,
                       message = ''Product created successfully''\<rparr>) \<and>
   CreateOrder_mutate decimal_key 100 shop_store ''1'' [Some ''1'', Some ''2''] None =
     Inr (shop_store\<lparr>orders := [first_order], order_seq := 2\<rparr>,
          \<lparr>entity = Some first_order, success = True,
           message = ''Order created successfully''\<rparr>) \<and>
   total_amount first_order =
     sum_list (map product_price (resolved_rows decimal_key shop_store [Some ''1'', Some ''2''])) \<and>
   total_amount first_order = 25.5 \<and>
   set (order_products first_order) = {widget, gadget} \<and>
   set (order_products first_order) = resolved decimal_key shop_store [Some ''1'', Some ''2'']"
proof -
  have a: "CreateCustomer_mutate sample_email empty_store ''Ann'' ''ann@example.com'' None =
     Inr (ann_store, \<lparr>entity = Some ann, success = True,
                      message = ''Customer created successfully''\<rparr>)"
    by (simp add: CreateCustomer_mutate_unfold sample_email_ann email_exists_def
        phone_rejected_def empty_store_def ann_store_def ann_def succeeded_def Let_def
        numeral_2_eq_2)
  have b: "CreateProduct_mutate ann_store ''Widget'' 10 Omitted =
     Inr (ann_store\<lparr>products := [widget], product_seq := 2\<rparr>,
          \<lparr>entity = Some widget, success = True,
           message = ''Product created successfully''\<rparr>)"
    by (simp add: CreateProduct_mutate_omitted CreateProduct_mutate_stock ann_store_def
        widget_def succeeded_def Let_def numeral_2_eq_2)
  have c: "CreateProduct_mutate (ann_store\<lparr>products := [widget], product_seq := 2\<rparr>) ''Gadget''
       15.5 (Passed (Some 3)) =
     Inr (shop_store, \<lparr>entity = Some gadget, success = True,
                       message = ''Product created successfully''\<rparr>)"
    by (simp add: CreateProduct_mutate_stock ann_store_def shop_store_def gadget_def
        succeeded_def Let_def numeral_3_eq_3 numeral_2_eq_2)
  note t = CreateOrder_total [where key_of = decimal_key and now = 100 and st = shop_store
      and cid = "''1''" and d = None
      and ids = "[Some ''1'', Some ''2'']"
      and st' = "shop_store\<lparr>orders := [first_order], order_seq := 2\<rparr>"
      and r = "\<lparr>entity = Some first_order, success = True,
                message = ''Order created successfully''\<rparr>"
      and ?p1.0 = widget and ?p2.0 = gadget and ?i1.0 = 1 and ?i2.0 = 2
      and ?s1.0 = "''1''" and ?s2.0 = "''2''"]
  have m: "widget \<in> set (products shop_store)" "gadget \<in> set (products shop_store)"
    "product_id widget = Some 1" "product_id gadget = Some 2"
    "product_price widget = 10" "product_price gadget = 15.5"
    by (simp_all add: shop_store_def widget_def gadget_def)
  have pre: "CreateOrder_mutate decimal_key 100 shop_store ''1'' [Some ''1'', Some ''2''] None =
        Inr (shop_store\<lparr>orders := [first_order], order_seq := 2\<rparr>,
             \<lparr>entity = Some first_order, success = True,
              message = ''Order created successfully''\<rparr>) \<and>
      success \<lparr>entity = Some first_order, success = True,
               message = ''Order created successfully''\<rparr>"
    using CreateOrder_shop by simp
  have "total_amount first_order =
          sum_list (map product_price
            (resolved_rows decimal_key shop_store [Some ''1'', Some ''2''])) \<and>
        order_products first_order =
          resolved_rows decimal_key shop_store [Some ''1'', Some ''2''] \<and>
        set (order_products first_order) =
          resolved decimal_key shop_store [Some ''1'', Some ''2''] \<and>
        first_order \<in> set (orders (shop_store\<lparr>orders := [first_order], order_seq := 2\<rparr>))"
    using t [THEN conjunct1, THEN mp, OF pre] by (simp add: resolved_def del: One_nat_def)
  then have r1: "total_amount first_order =
          sum_list (map product_price
            (resolved_rows decimal_key shop_store [Some ''1'', Some ''2''])) \<and>
        set (order_products first_order) =
          resolved decimal_key shop_store [Some ''1'', Some ''2'']"
    by blast
  have r2: "total_amount first_order = 25.5 \<and>
        set (order_products first_order) = {widget, gadget}"
    using t [THEN conjunct2] CreateOrder_shop store_ok_shop customer_known_shop(1) m
      decimal_key_samples(1,2)
    by (simp del: One_nat_def)
  show ?thesis
    by (intro conjI a b c CreateOrder_shop r1 [THEN conjunct1] r1 [THEN conjunct2]
        r2 [THEN conjunct1] r2 [THEN conjunct2])
qed

subsection \<open>BulkCreateCustomers\<close>

lemma bulk_record_eq:
  "bulk_record ve st c =
     (if record_fails ve st c then Inl (error_string ve st c) else Inr (unsaved c))"
  by (simp add: bulk_record_def record_fails_def error_string_def failure_reason_def
      validate_email_def phone_rejected_iff unsaved_def)

lemma bulk_loop_records:
  "bulk_loop ve st (map Some rs) created errs =
     Inr (created @ map unsaved (filter (\<lambda>r. \<not> record_fails ve st r) rs),
          errs @ map (error_string ve st) (filter (record_fails ve st) rs))"
  by (induction rs arbitrary: created errs) (simp_all add: bulk_record_eq)

lemma bulk_loop_returns:
  "bulk_loop ve st cs created errs = Inr x \<Longrightarrow> \<exists>rs. cs = map Some rs"
proof (induction cs arbitrary: created errs)
  case Nil
  then show ?case by simp
next
  case (Cons c cs)
  show ?case
  proof (cases c)
    case None
    with Cons.prems show ?thesis by simp
  next
    case (Some r)
    with Cons.prems obtain created' errs' where "bulk_loop ve st cs created' errs' = Inr x"
      by (auto split: sum.splits)
    then obtain rs where "cs = map Some rs"
      using Cons.IH by blast
    with Some have "c # cs = map Some (r # rs)" by simp
    then show ?thesis by (rule exI)
  qed
qed

lemma bulk_create_eq:
  "bulk_create st cs =
     (if distinct (map customer_email cs) \<and>
         list_all (\<lambda>c. \<not> email_exists st (customer_email c)) cs
      then Inr (st\<lparr>customers := customers st @ assign_keys (customer_seq st) cs,
                  customer_seq := customer_seq st + length cs\<rparr>,
                assign_keys (customer_seq st) cs)
      else Inl IntegrityError)"
proof (induction cs arbitrary: st)
  case Nil
  then show ?case by simp
next
  case (Cons c cs)
  show ?case
  proof (cases "email_exists st (customer_email c)")
    case True
    then show ?thesis by (simp add: customer_save_def)
  next
    case False
    let ?st1 = "st\<lparr>customers := customers st @ [c\<lparr>customer_id := Some (customer_seq st)\<rparr>],
        customer_seq := Suc (customer_seq st)\<rparr>"
    have s: "customer_save st c = Inr (?st1, c\<lparr>customer_id := Some (customer_seq st)\<rparr>)"
      using False by (simp add: customer_save_def customer_insert_def Let_def)
    have e: "email_exists ?st1 x = (email_exists st x \<or> customer_email c = x)" for x
      by (auto simp: email_exists_def list_ex_iff)
    have q: "(distinct (map customer_email cs) \<and>
           list_all (\<lambda>a. \<not> email_exists ?st1 (customer_email a)) cs) =
          (distinct (map customer_email (c # cs)) \<and>
           list_all (\<lambda>a. \<not> email_exists st (customer_email a)) (c # cs))"
      using False by (auto simp: e list_all_iff image_iff)
    have step: "bulk_create st (c # cs) =
        (case bulk_create ?st1 cs of
           Inl x \<Rightarrow> Inl x
         | Inr (st2, cs') \<Rightarrow> Inr (st2, c\<lparr>customer_id := Some (customer_seq st)\<rparr> # cs'))"
      by (simp add: s)
    show ?thesis
    proof (cases "distinct (map customer_email (c # cs)) \<and>
           list_all (\<lambda>a. \<not> email_exists st (customer_email a)) (c # cs)")
      case True
      with q have ok1: "distinct (map customer_email cs) \<and>
           list_all (\<lambda>a. \<not> email_exists ?st1 (customer_email a)) cs"
        by blast
      have "bulk_create ?st1 cs =
          Inr (?st1\<lparr>customers := customers ?st1 @ assign_keys (customer_seq ?st1) cs,
                    customer_seq := customer_seq ?st1 + length cs\<rparr>,
               assign_keys (customer_seq ?st1) cs)"
        unfolding Cons.IH [of ?st1] using ok1 by simp
      with True show ?thesis
        unfolding step by simp
    next
      case False
      with q have ok1: "\<not> (distinct (map customer_email cs) \<and>
           list_all (\<lambda>a. \<not> email_exists ?st1 (customer_email a)) cs)"
        by blast
      have "bulk_create ?st1 cs = Inl IntegrityError"
        unfolding Cons.IH [of ?st1] using ok1 by simp
      with False show ?thesis
        unfolding step by simp
    qed
  qed
qed

lemma assign_keys_fields: "map customer_fields (assign_keys n cs) = map customer_fields cs"
  by (induction cs arbitrary: n) (simp_all add: customer_fields_def)

lemma assign_keys_length: "length (assign_keys n cs) = length cs"
  by (induction cs arbitrary: n) simp_all

lemma unsaved_fields: "customer_fields (unsaved c) = input_fields c"
  by (simp add: customer_fields_def input_fields_def unsaved_def)

lemma unsaved_email: "customer_email \<circ> unsaved = input_email"
  by (simp add: fun_eq_iff unsaved_def)

lemma accepted_fresh:
  "list_all (\<lambda>c. \<not> email_exists st (customer_email c))
     (map unsaved (filter (\<lambda>r. \<not> record_fails ve st r) rs))"
  by (simp add: list_all_iff record_fails_def unsaved_def)

lemma BulkCreateCustomers_records:
  "BulkCreateCustomers_mutate ve st (Some (map Some rs)) =
     (if distinct (map input_email (filter (\<lambda>r. \<not> record_fails ve st r) rs))
      then
        (let created = assign_keys (customer_seq st)
                         (map unsaved (filter (\<lambda>r. \<not> record_fails ve st r) rs))
         in Inr (st\<lparr>customers := customers st @ created,
                    customer_seq := customer_seq st + length created\<rparr>,
                 \<lparr>created_customers = created,
                  errors = map (error_string ve st) (filter (record_fails ve st) rs)\<rparr>))
      else Inl IntegrityError)"
  using accepted_fresh [of st ve rs]
  by (simp add: BulkCreateCustomers_mutate_def bulk_loop_records bulk_create_eq
      unsaved_email Let_def assign_keys_length)

lemma BulkCreateCustomers_returns:
  assumes "BulkCreateCustomers_mutate ve st arg = Inr x"
  shows "\<exists>rs. arg = Some (map Some rs)"
proof (cases arg)
  case None
  with assms show ?thesis by (simp add: BulkCreateCustomers_mutate_def)
next
  case (Some cs)
  with assms obtain y where "bulk_loop ve st cs [] [] = Inr y"
    by (auto simp: BulkCreateCustomers_mutate_def split: sum.splits)
  then obtain rs where "cs = map Some rs"
    using bulk_loop_returns by blast
  with Some have "arg = Some (map Some rs)" by simp
  then show ?thesis by (rule exI)
qed


lemma length_filter_split:
  "length (filter (\<lambda>x. \<not> P x) xs) = length xs - length (filter P xs)"
  by (induction xs) (auto simp: Suc_diff_le)

lemma batch_record_fails:
  "\<not> record_fails sample_email ann_store bob_in"
  "record_fails sample_email ann_store ann_in"
  "record_fails sample_email ann_store carl_in"
  "record_fails sample_email ann_store dora_in"
  "\<not> record_fails sample_email ann_store eve_in"
proof -
  have e: "email_exists ann_store s = (s = ''ann@example.com'')" for s
    by (auto simp: email_exists_def ann_store_def ann_def)
  have p: "phone_acceptable (Some ''+1234567890'')" "\<not> phone_acceptable (Some ''12345'')"
    "phone_acceptable None"
    by (simp_all add: phone_acceptable_def phone_ok_intl phone_bad_short)
  show "\<not> record_fails sample_email ann_store bob_in"
    by (simp add: record_fails_def bob_in_def e p sample_email_bob)
  show "record_fails sample_email ann_store ann_in"
    by (simp add: record_fails_def ann_in_def e)
  show "record_fails sample_email ann_store carl_in"
    by (simp add: record_fails_def carl_in_def p)
  show "record_fails sample_email ann_store dora_in"
    by (simp add: record_fails_def dora_in_def sample_email_def)
  show "\<not> record_fails sample_email ann_store eve_in"
    by (simp add: record_fails_def eve_in_def e p sample_email_def)
qed

lemma batch_filter:
  "filter (record_fails sample_email ann_store) batch = [ann_in, carl_in, dora_in]"
  "filter (\<lambda>r. \<not> record_fails sample_email ann_store r) batch = [bob_in, eve_in]"
  by (simp_all add: batch_def batch_record_fails)

lemma batch_error_strings:
  "map (error_string sample_email ann_store) [ann_in, carl_in, dora_in] = batch_errors"
proof -
  have e: "email_exists ann_store s = (s = ''ann@example.com'')" for s
    by (auto simp: email_exists_def ann_store_def ann_def)
  show ?thesis
    by (simp add: error_string_def failure_reason_def batch_errors_def ann_in_def carl_in_def
        dora_in_def e sample_email_def)
qed

lemma batch_run:
  "BulkCreateCustomers_mutate sample_email ann_store (Some (map Some batch)) =
     Inr (batch_store, \<lparr>created_customers = [bob, eve], errors = batch_errors\<rparr>)"
proof -
  have k: "assign_keys (customer_seq ann_store) (map unsaved [bob_in, eve_in]) = [bob, eve]"
    by (simp add: ann_store_def unsaved_def bob_in_def eve_in_def bob_def eve_def
        numeral_3_eq_3 numeral_2_eq_2)
  have d: "distinct (map input_email [bob_in, eve_in])"
    by (simp add: bob_in_def eve_in_def)
  show ?thesis
    unfolding BulkCreateCustomers_records batch_filter batch_error_strings
    using d
    by (simp add: ann_store_def batch_store_def Let_def eval_nat_numeral unsaved_def
        bob_in_def eve_in_def bob_def eve_def)
qed

lemma assign_keys_rel:
  "list_all2 (\<lambda>c r. customer_fields c = input_fields r) (assign_keys n (map unsaved rs)) rs"
  by (induction rs arbitrary: n) (simp_all add: customer_fields_def input_fields_def unsaved_def)

lemma error_string_prefix:
  "list_all2 (\<lambda>r e. prefix (input_email r) e) bad (map (error_string ve st) bad)"
  by (induction bad) (simp_all add: error_string_def)

lemma duplicate_batch:
  "filter (record_fails sample_email ann_store) [bob_in, bob_in] = []"
  "filter (\<lambda>r. \<not> record_fails sample_email ann_store r) [bob_in, bob_in] = [bob_in, bob_in]"
  by (simp_all add: batch_record_fails)

text \<open>
  C3. The claim that N records of which M fail a check always give N - M created customers
  fails: the checks compare a record's email with the store only, so two records with the
  same fresh email both pass (N = 2, M = 0), and the batch write, which would store that
  email twice, is refused. The call raises and nothing is created.
\<close>

theorem BulkCreateCustomers_duplicate_emails:
  "filter (record_fails sample_email ann_store) [bob_in, bob_in] = [] \<and>
   BulkCreateCustomers_mutate sample_email ann_store (Some (map Some [bob_in, bob_in])) =
     Inl IntegrityError"
proof
  show "filter (record_fails sample_email ann_store) [bob_in, bob_in] = []"
    by (rule duplicate_batch)
  show "BulkCreateCustomers_mutate sample_email ann_store (Some (map Some [bob_in, bob_in])) =
     Inl IntegrityError"
    unfolding BulkCreateCustomers_records duplicate_batch by simp
qed

text \<open>
  C3, amended. For a list of N customer records of which M fail one of the three
  per-record checks (against the store as it is before the call) and whose other N - M
  records have pairwise distinct emails, BulkCreateCustomers returns N - M created
  customers and M error strings. The error strings are those of the failing records, in
  input order, each starting with its record's email; the created customers are those of
  all the other records, wherever the failing records stand in the list, and they are
  what the call adds to the store. When two of the records that pass the checks share an
  email, the call raises \<^verbatim>\<open>IntegrityError\<close>.
\<close>

theorem BulkCreateCustomers_counts:
  "let bad = filter (record_fails ve st) rs;
       good = filter (\<lambda>r. \<not> record_fails ve st r) rs
   in (distinct (map input_email good) \<longrightarrow>
         (case BulkCreateCustomers_mutate ve st (Some (map Some rs)) of
            Inl e \<Rightarrow> False
          | Inr (st', res) \<Rightarrow>
              length (created_customers res) = length rs - length bad \<and>
              length (errors res) = length bad \<and>
              list_all2 (\<lambda>r e. prefix (input_email r) e) bad (errors res) \<and>
              errors res = map (error_string ve st) bad \<and>
              map customer_fields (created_customers res) = map input_fields good \<and>
              customers st' = customers st @ created_customers res)) \<and>
      (\<not> distinct (map input_email good) \<longrightarrow>
         BulkCreateCustomers_mutate ve st (Some (map Some rs)) = Inl IntegrityError)"
  by (simp add: BulkCreateCustomers_records Let_def assign_keys_length assign_keys_fields
      length_filter_split unsaved_fields error_string_prefix)

theorem BulkCreateCustomers_counts_witness:
  "filter (record_fails sample_email ann_store) batch = [ann_in, carl_in, dora_in] \<and>
   distinct (map input_email [bob_in, eve_in]) \<and>
   BulkCreateCustomers_mutate sample_email ann_store (Some (map Some batch)) =
     Inr (batch_store, \<lparr>created_customers = [bob, eve], errors = batch_errors\<rparr>) \<and>
   length [bob, eve] = length batch - length [ann_in, carl_in, dora_in] \<and>
   length batch_errors = length [ann_in, carl_in, dora_in] \<and>
   list_all2 (\<lambda>r e. prefix (input_email r) e) [ann_in, carl_in, dora_in] batch_errors \<and>
   map customer_fields [bob, eve] = map input_fields [bob_in, eve_in] \<and>
   customers batch_store = customers ann_store @ [bob, eve]"
proof -
  have d: "distinct (map input_email [bob_in, eve_in])"
    by (simp add: bob_in_def eve_in_def)
  from BulkCreateCustomers_counts [where ve = sample_email and st = ann_store and rs = batch]
  have "length [bob, eve] = length batch - length [ann_in, carl_in, dora_in] \<and>
   length batch_errors = length [ann_in, carl_in, dora_in] \<and>
   list_all2 (\<lambda>r e. prefix (input_email r) e) [ann_in, carl_in, dora_in] batch_errors \<and>
   map customer_fields [bob, eve] = map input_fields [bob_in, eve_in] \<and>
   customers batch_store = customers ann_store @ [bob, eve]"
    unfolding batch_run batch_filter Let_def using d by simp
  with batch_filter(1) batch_run d show ?thesis
    by (intro conjI) simp_all
qed

text \<open>
  C10. The created_customers list of BulkCreateCustomers corresponds, position by
  position, to the accepted records in their input order: each created customer has the
  name and the email of its record and the record's phone, which is the empty string when
  the record's phone is absent or empty. This holds of every result the call returns; it
  returns one for a list of records whose accepted records have pairwise distinct emails,
  and only for a list of records.
\<close>

theorem BulkCreateCustomers_order:
  "(BulkCreateCustomers_mutate ve st (Some (map Some rs)) = Inr (st', res) \<longrightarrow>
      list_all2
        (\<lambda>c r. customer_name c = input_name r \<and> customer_email c = input_email r \<and>
               customer_phone c = or_empty (input_phone r) \<and>
               (input_phone r = None \<or> input_phone r = Some [] \<longrightarrow> customer_phone c = []))
        (created_customers res) (filter (\<lambda>r. \<not> record_fails ve st r) rs)) \<and>
   (distinct (map input_email (filter (\<lambda>r. \<not> record_fails ve st r) rs)) \<longrightarrow>
      (case BulkCreateCustomers_mutate ve st (Some (map Some rs)) of
         Inl e \<Rightarrow> False
       | Inr (st2, res2) \<Rightarrow>
           list_all2
             (\<lambda>c r. customer_name c = input_name r \<and> customer_email c = input_email r \<and>
                    customer_phone c = or_empty (input_phone r) \<and>
                    (input_phone r = None \<or> input_phone r = Some [] \<longrightarrow>
                       customer_phone c = []))
             (created_customers res2) (filter (\<lambda>r. \<not> record_fails ve st r) rs))) \<and>
   (BulkCreateCustomers_mutate ve st arg = Inr x \<longrightarrow> (\<exists>rs'. arg = Some (map Some rs')))"
proof -
  have rel: "list_all2
          (\<lambda>c r. customer_name c = input_name r \<and> customer_email c = input_email r \<and>
                 customer_phone c = or_empty (input_phone r) \<and>
                 (input_phone r = None \<or> input_phone r = Some [] \<longrightarrow> customer_phone c = []))
          (assign_keys n (map unsaved good)) good" for n good
    by (rule list_all2_mono [OF assign_keys_rel])
      (auto simp: customer_fields_def input_fields_def)
  have a: "BulkCreateCustomers_mutate ve st (Some (map Some rs)) = Inr (st', res) \<longrightarrow>
      list_all2
        (\<lambda>c r. customer_name c = input_name r \<and> customer_email c = input_email r \<and>
               customer_phone c = or_empty (input_phone r) \<and>
               (input_phone r = None \<or> input_phone r = Some [] \<longrightarrow> customer_phone c = []))
        (created_customers res) (filter (\<lambda>r. \<not> record_fails ve st r) rs)"
    using rel by (auto simp: BulkCreateCustomers_records Let_def split: if_splits)
  have b: "distinct (map input_email (filter (\<lambda>r. \<not> record_fails ve st r) rs)) \<longrightarrow>
      (case BulkCreateCustomers_mutate ve st (Some (map Some rs)) of
         Inl e \<Rightarrow> False
       | Inr (st2, res2) \<Rightarrow>
           list_all2
             (\<lambda>c r. customer_name c = input_name r \<and> customer_email c = input_email r \<and>
                    customer_phone c = or_empty (input_phone r) \<and>
                    (input_phone r = None \<or> input_phone r = Some [] \<longrightarrow>
                       customer_phone c = []))
             (created_customers res2) (filter (\<lambda>r. \<not> record_fails ve st r) rs))"
    using rel by (simp add: BulkCreateCustomers_records Let_def)
  have c: "BulkCreateCustomers_mutate ve st arg = Inr x \<longrightarrow> (\<exists>rs'. arg = Some (map Some rs'))"
    using BulkCreateCustomers_returns by blast
  from a b c show ?thesis by (intro conjI)
qed

theorem BulkCreateCustomers_order_witness:
  "BulkCreateCustomers_mutate sample_email ann_store (Some (map Some batch)) =
     Inr (batch_store, \<lparr>created_customers = [bob, eve], errors = batch_errors\<rparr>) \<and>
   filter (\<lambda>r. \<not> record_fails sample_email ann_store r) batch = [bob_in, eve_in] \<and>
   customer_name bob = input_name bob_in \<and> customer_email bob = input_email bob_in \<and>
   customer_phone bob = ''+1234567890'' \<and>
   customer_name eve = input_name eve_in \<and> customer_email eve = input_email eve_in \<and>
   input_phone eve_in = None \<and> customer_phone eve = []"
proof -
  from BulkCreateCustomers_order [where ve = sample_email and st = ann_store and rs = batch
      and st' = batch_store
      and res = "\<lparr>created_customers = [bob, eve], errors = batch_errors\<rparr>",
      THEN conjunct1, THEN mp, OF batch_run]
  have "customer_name bob = input_name bob_in \<and> customer_email bob = input_email bob_in \<and>
   customer_phone bob = ''+1234567890'' \<and>
   customer_name eve = input_name eve_in \<and> customer_email eve = input_email eve_in \<and>
   input_phone eve_in = None \<and> customer_phone eve = []"
    unfolding batch_filter by (simp add: bob_in_def eve_in_def)
  with batch_filter(2) batch_run show ?thesis
    by (intro conjI) simp_all
qed

subsection \<open>Failures and persisted names\<close>






lemma BulkCreateCustomers_store:
  assumes "BulkCreateCustomers_mutate ve st (Some (map Some rs)) = Inr (st', res)"
  shows "customers st' = customers st @ created_customers res"
    and "products st' = products st" and "orders st' = orders st"
    and "map customer_fields (created_customers res) =
           map input_fields (filter (\<lambda>r. \<not> record_fails ve st r) rs)"
    and "map customer_name (created_customers res) =
           map input_name (filter (\<lambda>r. \<not> record_fails ve st r) rs)"
proof -
  from assms have s: "st' = st\<lparr>customers := customers st @ created_customers res,
        customer_seq := customer_seq st + length (created_customers res)\<rparr>"
    and c: "created_customers res = assign_keys (customer_seq st)
          (map unsaved (filter (\<lambda>r. \<not> record_fails ve st r) rs))"
    by (auto simp: BulkCreateCustomers_records Let_def split: if_splits)
  show "customers st' = customers st @ created_customers res"
    using arg_cong [OF s, of customers] by simp
  show "products st' = products st"
    using arg_cong [OF s, of products] by simp
  show "orders st' = orders st"
    using arg_cong [OF s, of orders] by simp
  from c show f: "map customer_fields (created_customers res) =
           map input_fields (filter (\<lambda>r. \<not> record_fails ve st r) rs)"
    by (simp add: assign_keys_fields unsaved_fields)
  have "map customer_name cs = map fst (map customer_fields cs)" for cs
    by (simp add: customer_fields_def)
  moreover have "map input_name xs = map fst (map input_fields xs)" for xs
    by (simp add: input_fields_def)
  ultimately show "map customer_name (created_customers res) =
           map input_name (filter (\<lambda>r. \<not> record_fails ve st r) rs)"
    using f by metis
qed



text \<open>
  C8. The claim that every persisted customer has a non-empty name fails: no check looks
  at the name. CreateCustomer with the empty name and a valid, fresh email succeeds and
  stores a customer whose name is empty.
\<close>

theorem CreateCustomer_empty_name:
  "CreateCustomer_mutate sample_email empty_store [] ''ann@example.com'' None =
     Inr (\<lparr>customers = [nameless], products = [], orders = [],
           customer_seq = 2, product_seq = 1, order_seq = 1\<rparr>,
          \<lparr>entity = Some nameless, success = True,
           message = ''Customer created successfully''\<rparr>) \<and>
   customer_name nameless = []"
  by (simp add: CreateCustomer_mutate_unfold sample_email_ann email_exists_def
      phone_rejected_def empty_store_def nameless_def succeeded_def Let_def numeral_2_eq_2)

text \<open>
  C8, amended. A customer that CreateCustomer or BulkCreateCustomers persists carries the
  name of its own input unchanged, and the name plays no part in whether it is persisted.
  CreateCustomer: the customers a returning call adds all have the name given; when the
  email is valid and fresh and the phone acceptable, the call succeeds and adds exactly
  one customer, with the name given, whatever that name is, the empty name included.
  BulkCreateCustomers: the customers a returning call adds are those it returns, one per
  record that passes the three checks, in input order, each with the name of its own
  record, so its name is empty exactly when that record's is; when the records that pass
  the checks have pairwise distinct emails the call returns, and every one of them is
  persisted under its name, the empty name included.
\<close>

theorem persisted_names:
  "(CreateCustomer_mutate ve st name email phone = Inr (st1, r) \<longrightarrow>
      (let new = drop (length (customers st)) (customers st1)
       in customers st1 = customers st @ new \<and>
          list_all (\<lambda>c. customer_name c = name \<and> (customer_name c = []) = (name = [])) new)) \<and>
   (ve email \<and> \<not> email_exists st email \<and> phone_acceptable phone \<longrightarrow>
      (case CreateCustomer_mutate ve st name email phone of
         Inl e \<Rightarrow> False
       | Inr (st1, r) \<Rightarrow>
           success r \<and>
           customers st1 = customers st @ drop (length (customers st)) (customers st1) \<and>
           map customer_name (drop (length (customers st)) (customers st1)) = [name] \<and>
           map_option customer_name (entity r) = Some name)) \<and>
   (BulkCreateCustomers_mutate ve st (Some (map Some rs)) = Inr (st2, res) \<longrightarrow>
      (let new = drop (length (customers st)) (customers st2);
           good = filter (\<lambda>r. \<not> record_fails ve st r) rs
       in customers st2 = customers st @ new \<and> new = created_customers res \<and>
          list_all2 (\<lambda>c r. customer_name c = input_name r \<and>
                            (customer_name c = []) = (input_name r = [])) new good)) \<and>
   (distinct (map input_email (filter (\<lambda>r. \<not> record_fails ve st r) rs)) \<longrightarrow>
      (case BulkCreateCustomers_mutate ve st (Some (map Some rs)) of
         Inl e \<Rightarrow> False
       | Inr (st2, res) \<Rightarrow>
           customers st2 = customers st @ created_customers res \<and>
           map customer_name (created_customers res) =
             map input_name (filter (\<lambda>r. \<not> record_fails ve st r) rs)))"
proof (intro conjI impI)
  assume "CreateCustomer_mutate ve st name email phone = Inr (st1, r)"
  then show "let new = drop (length (customers st)) (customers st1)
       in customers st1 = customers st @ new \<and>
          list_all (\<lambda>c. customer_name c = name \<and> (customer_name c = []) = (name = [])) new"
    by (auto simp: CreateCustomer_mutate_unfold Let_def split: if_splits)
next
  assume "ve email \<and> \<not> email_exists st email \<and> phone_acceptable phone"
  then show "case CreateCustomer_mutate ve st name email phone of
         Inl e \<Rightarrow> False
       | Inr (st1, r) \<Rightarrow>
           success r \<and>
           customers st1 = customers st @ drop (length (customers st)) (customers st1) \<and>
           map customer_name (drop (length (customers st)) (customers st1)) = [name] \<and>
           map_option customer_name (entity r) = Some name"
    by (simp add: CreateCustomer_mutate_unfold phone_rejected_iff succeeded_def Let_def)
next
  assume b: "BulkCreateCustomers_mutate ve st (Some (map Some rs)) = Inr (st2, res)"
  note s = BulkCreateCustomers_store(1) [OF b]
  have n: "map customer_name (created_customers res) =
      map input_name (filter (\<lambda>r. \<not> record_fails ve st r) rs)"
    by (rule BulkCreateCustomers_store(5) [OF b])
  have "list_all2 (\<lambda>c r. customer_name c = input_name r) cs gs"
    if "map customer_name cs = map input_name gs" for cs :: "customer list" and gs
    using that by (induction cs arbitrary: gs) auto
  from this [OF n]
  have "list_all2 (\<lambda>c r. customer_name c = input_name r \<and>
                            (customer_name c = []) = (input_name r = []))
      (created_customers res) (filter (\<lambda>r. \<not> record_fails ve st r) rs)"
    by (rule list_all2_mono) simp
  with s show "let new = drop (length (customers st)) (customers st2);
           good = filter (\<lambda>r. \<not> record_fails ve st r) rs
       in customers st2 = customers st @ new \<and> new = created_customers res \<and>
          list_all2 (\<lambda>c r. customer_name c = input_name r \<and>
                            (customer_name c = []) = (input_name r = [])) new good"
    by (simp add: Let_def)
next
  assume d: "distinct (map input_email (filter (\<lambda>r. \<not> record_fails ve st r) rs))"
  let ?created = "assign_keys (customer_seq st)
      (map unsaved (filter (\<lambda>r. \<not> record_fails ve st r) rs))"
  let ?st2 = "st\<lparr>customers := customers st @ ?created,
      customer_seq := customer_seq st + length ?created\<rparr>"
  let ?res = "\<lparr>created_customers = ?created,
      errors = map (error_string ve st) (filter (record_fails ve st) rs)\<rparr>"
  have b: "BulkCreateCustomers_mutate ve st (Some (map Some rs)) = Inr (?st2, ?res)"
    using d by (simp add: BulkCreateCustomers_records Let_def)
  note BulkCreateCustomers_store(1) [OF b] BulkCreateCustomers_store(5) [OF b]
  then show "case BulkCreateCustomers_mutate ve st (Some (map Some rs)) of
         Inl e \<Rightarrow> False
       | Inr (st2, res) \<Rightarrow>
           customers st2 = customers st @ created_customers res \<and>
           map customer_name (created_customers res) =
             map input_name (filter (\<lambda>r. \<not> record_fails ve st r) rs)"
    unfolding b by simp
qed

theorem persisted_names_witness:
  "sample_email ''ann@example.com'' \<and> \<not> email_exists empty_store ''ann@example.com'' \<and>
   phone_acceptable None \<and>
   CreateCustomer_mutate sample_email empty_store [] ''ann@example.com'' None =
     Inr (nameless_store,
          \<lparr>entity = Some nameless, success = True,
           message = ''Customer created successfully''\<rparr>) \<and>
   customers nameless_store =
     customers empty_store @ drop (length (customers empty_store)) (customers nameless_store) \<and>
   map customer_name (drop (length (customers empty_store)) (customers nameless_store)) = [[]] \<and>
   list_all (\<lambda>c. customer_name c = []) (customers nameless_store) \<and>
   filter (\<lambda>r. \<not> record_fails sample_email empty_store r) [nameless_in, dora_in] =
     [nameless_in] \<and>
   distinct (map input_email [nameless_in]) \<and> input_name nameless_in = [] \<and>
   BulkCreateCustomers_mutate sample_email empty_store (Some (map Some [nameless_in, dora_in])) =
     Inr (nameless_store,
          \<lparr>created_customers = [nameless],
           errors = [''not-an-email: Invalid email format'']\<rparr>) \<and>
   drop (length (customers empty_store)) (customers nameless_store) = [nameless] \<and>
   list_all2 (\<lambda>c r. customer_name c = input_name r \<and>
                     (customer_name c = []) = (input_name r = [])) [nameless] [nameless_in] \<and>
   map customer_name [nameless] = map input_name [nameless_in]"
proof -
  have f: "\<not> email_exists empty_store ''ann@example.com''"
    by (simp add: email_exists_def empty_store_def)
  have p: "phone_acceptable None"
    by (simp add: phone_acceptable_def)
  have a: "CreateCustomer_mutate sample_email empty_store [] ''ann@example.com'' None =
     Inr (nameless_store,
          \<lparr>entity = Some nameless, success = True,
           message = ''Customer created successfully''\<rparr>)"
    by (simp add: CreateCustomer_mutate_unfold sample_email_ann email_exists_def
        phone_rejected_iff p empty_store_def nameless_store_def nameless_def succeeded_def Let_def numeral_2_eq_2)
  have g: "filter (\<lambda>r. \<not> record_fails sample_email empty_store r) [nameless_in, dora_in] =
     [nameless_in]"
    "filter (record_fails sample_email empty_store) [nameless_in, dora_in] = [dora_in]"
    by (simp_all add: record_fails_def nameless_in_def dora_in_def sample_email_def
        email_exists_def empty_store_def phone_acceptable_def)
  have d: "distinct (map input_email [nameless_in])"
    by simp
  have i: "input_name nameless_in = []"
    by (simp add: nameless_in_def)
  have b: "BulkCreateCustomers_mutate sample_email empty_store
       (Some (map Some [nameless_in, dora_in])) =
     Inr (nameless_store,
          \<lparr>created_customers = [nameless],
           errors = [''not-an-email: Invalid email format'']\<rparr>)"
    unfolding BulkCreateCustomers_records g
    by (simp add: empty_store_def nameless_store_def nameless_def nameless_in_def unsaved_def
        error_string_def failure_reason_def dora_in_def sample_email_def Let_def
        numeral_2_eq_2)
  have l: "length (customers empty_store) = 0" "customers nameless_store = [nameless]"
    by (simp_all add: empty_store_def nameless_store_def)
  note t = persisted_names [where ve = sample_email and st = empty_store
      and name = "[]" and email = "''ann@example.com''" and phone = None
      and ?st1.0 = nameless_store
      and r = "\<lparr>entity = Some nameless, success = True,
                message = ''Customer created successfully''\<rparr>"
      and rs = "[nameless_in, dora_in]" and ?st2.0 = nameless_store
      and res = "\<lparr>created_customers = [nameless],
                  errors = [''not-an-email: Invalid email format'']\<rparr>"]
  from t [THEN conjunct1, THEN mp, OF a]
  have x1: "list_all (\<lambda>c. customer_name c = []) (customers nameless_store)"
    by (simp add: Let_def l)
  from t [THEN conjunct2, THEN conjunct1, THEN mp, OF conjI [OF sample_email_ann conjI [OF f p]]]
  have x2: "customers nameless_store =
     customers empty_store @ drop (length (customers empty_store)) (customers nameless_store)"
    "map customer_name (drop (length (customers empty_store)) (customers nameless_store)) = [[]]"
    unfolding a by simp_all
  from t [THEN conjunct2, THEN conjunct2, THEN conjunct1, THEN mp, OF b]
  have x3: "drop (length (customers empty_store)) (customers nameless_store) = [nameless]"
    "list_all2 (\<lambda>c r. customer_name c = input_name r \<and>
                     (customer_name c = []) = (input_name r = [])) [nameless] [nameless_in]"
    unfolding g by (auto simp: Let_def)
  from t [THEN conjunct2, THEN conjunct2, THEN conjunct2, THEN mp, unfolded g, OF d]
  have x4: "map customer_name [nameless] = map input_name [nameless_in]"
    unfolding b by simp
  show ?thesis
    by (intro conjI sample_email_ann f p a x1 x2 g(1) d i b x3 x4)
qed

subsection \<open>Every mutation keeps the store invariant\<close>

lemma CreateCustomer_store_ok:
  assumes "CreateCustomer_mutate ve st name email phone = Inr (st', r)" and "store_ok st"
  shows "store_ok st'"
proof -
  have "store_ok (st\<lparr>customers := customers st @ [c\<lparr>customer_id := Some (customer_seq st)\<rparr>],
      customer_seq := Suc (customer_seq st)\<rparr>)" for c
    using store_ok_customer_insert [OF assms(2), of c] by (simp add: customer_insert_def Let_def)
  from this [of "\<lparr>customer_id = None, customer_name = name, customer_email = email,
      customer_phone = or_empty phone\<rparr>"] assms
  show ?thesis
    by (auto simp: CreateCustomer_mutate_unfold Let_def split: if_splits)
qed

lemma CreateProduct_store_ok:
  assumes "CreateProduct_mutate st name price stock = Inr (st', r)" and "store_ok st"
  shows "store_ok st'"
  using assms store_ok_product_save [OF assms(2)]
  by (auto simp: CreateProduct_mutate_def Let_def split: if_splits option.splits prod.splits)
    (metis fst_conv)

lemma CreateOrder_store_ok:
  assumes "CreateOrder_mutate key_of now st cid ids d = Inr (st', r)" and "store_ok st"
  shows "store_ok st'"
proof (cases "customer_get key_of st cid")
  case (Inl e)
  with assms show ?thesis
    by (cases e) (auto simp: CreateOrder_mutate_def)
next
  case (Inr cust)
  have "store_ok (fst (products_set (fst (order_create st cust t a)) od ps))" for t a od ps
    using assms(2) by (intro store_ok_products_set store_ok_order_create)
  with assms Inr show ?thesis
    by (auto simp: CreateOrder_mutate_def Let_def split: if_splits prod.splits sum.splits)
      (metis fst_conv)
qed

lemma BulkCreateCustomers_store_ok:
  assumes "BulkCreateCustomers_mutate ve st arg = Inr (st', r)" and "store_ok st"
  shows "store_ok st'"
  using assms
  by (auto simp: BulkCreateCustomers_mutate_def split: option.splits sum.splits prod.splits
      dest: store_ok_bulk_create)

end
